theory Spec2Isabelle
  imports Main "HOL-Library.Char_ord" "HOL-Library.List_Lexorder"
begin

section \<open>Dockerfile dependency resolution (pkg/skaffold/docker/parse.go)\<close>

text \<open>
  A shallow embedding of the dependency resolver of \<^verbatim>\<open>parse.go\<close>. Go strings are byte
  strings (\<^typ>\<open>string\<close>), compared bytewise, which is the order of
  \<^theory_text>\<open>Char_ord\<close> lifted to lists by \<^theory_text>\<open>List_Lexorder\<close>. Every error
  return and every nil dereference of the source is a branch returning \<open>Inl\<close>.
  The collaborators that \<^verbatim>\<open>parse.go\<close> calls but does not define (the file system,
  the Dockerfile parser, the shell lexer, the image lookup, the template helpers, the lower
  case of Unicode) are the fields of a record \<open>world\<close>; every function below that calls one
  takes the world as its first argument.
\<close>

subsection \<open>Errors\<close>

datatype err =
    ErrNotExist                   \<comment> \<open>an error for which \<^verbatim>\<open>os.IsNotExist\<close> holds\<close>
  | ErrBadPattern                 \<comment> \<open>\<^verbatim>\<open>filepath.ErrBadPattern\<close>\<close>
  | ErrOther string               \<comment> \<open>any other error of a collaborator\<close>
  | Wrap err string               \<comment> \<open>\<^verbatim>\<open>errors.Wrap(err, msg)\<close>\<close>
  | FilePatternNoMatch "string list"
      \<comment> \<open>\<^verbatim>\<open>fmt.Errorf("file pattern %s must match at least one file", files)\<close>\<close>
  | GettingRelativePath string    \<comment> \<open>\<^verbatim>\<open>fmt.Errorf("getting relative path of %s", f)\<close>\<close>
  | NilPointer                    \<comment> \<open>panic: nil pointer dereference\<close>
  | IndexOutOfRange               \<comment> \<open>panic: index out of range\<close>

fun os_IsNotExist :: "err \<Rightarrow> bool" where
  "os_IsNotExist ErrNotExist = True"
| "os_IsNotExist e = False"

subsection \<open>The functions of package strings that the resolver uses\<close>

definition strings_HasPrefix :: "string \<Rightarrow> string \<Rightarrow> bool" where
  "strings_HasPrefix s pre = (take (length pre) s = pre)"

text \<open>\<^verbatim>\<open>strings.Split(s, sep)\<close> for a separator of one byte; the result is never empty.\<close>

fun strings_Split :: "string \<Rightarrow> char \<Rightarrow> string list" where
  "strings_Split [] sep = [[]]"
| "strings_Split (c # cs) sep =
     (if c = sep then [] # strings_Split cs sep
      else (case strings_Split cs sep of
              [] \<Rightarrow> [[c]]
            | x # xs \<Rightarrow> (c # x) # xs))"

fun strings_Join :: "string list \<Rightarrow> string \<Rightarrow> string" where
  "strings_Join [] sep = []"
| "strings_Join [x] sep = x"
| "strings_Join (x # y # ys) sep = x @ sep @ strings_Join (y # ys) sep"

subsection \<open>The lexical functions of package path/filepath (Unix)\<close>

definition filepath_IsAbs :: "string \<Rightarrow> bool" where
  "filepath_IsAbs p = strings_HasPrefix p ''/''"

text \<open>
  \<^verbatim>\<open>filepath.Clean\<close>: empty and \<open>.\<close> elements are dropped, an inner \<open>..\<close> removes the
  element before it, a \<open>..\<close> at the root is dropped, and the empty result is \<open>.\<close>.
  The elements kept so far are the third argument.
\<close>

fun cleanElems :: "bool \<Rightarrow> string list \<Rightarrow> string list \<Rightarrow> string list" where
  "cleanElems rooted [] out = out"
| "cleanElems rooted (e # es) out =
     (if e = [] \<or> e = ''.'' then cleanElems rooted es out
      else if e = ''..'' then
        (if out \<noteq> [] \<and> last out \<noteq> ''..'' then cleanElems rooted es (butlast out)
         else if \<not> rooted then cleanElems rooted es (out @ [''..''])
         else cleanElems rooted es out)
      else cleanElems rooted es (out @ [e]))"

definition filepath_Clean :: "string \<Rightarrow> string" where
  "filepath_Clean p =
     (if p = [] then ''.''
      else
        (let rooted = filepath_IsAbs p;
             out = (if rooted then ''/'' else []) @
                   strings_Join (cleanElems rooted (strings_Split p (CHR ''/'')) []) ''/''
         in if out = [] then ''.'' else out))"

text \<open>\<^verbatim>\<open>filepath.Join\<close>: leading empty elements are skipped, the rest is joined and cleaned.\<close>

definition filepath_Join :: "string list \<Rightarrow> string" where
  "filepath_Join elem =
     (case dropWhile (\<lambda>e. e = []) elem of
        [] \<Rightarrow> []
      | es \<Rightarrow> filepath_Clean (strings_Join es ''/''))"

subsection \<open>Instructions\<close>

text \<open>
  A \<^verbatim>\<open>parser.Node\<close> of the instruction list: \<open>Value\<close> is the command, \<open>Next\<close> the values
  of the chain of token nodes that hangs off it (\<open>[]\<close> when \<^verbatim>\<open>node.Next == nil\<close>), and
  \<open>Flags\<close> the flags of the instruction. Token nodes carry no flags.
\<close>

record node =
  Value :: string
  Next :: "string list"
  Flags :: "string list"

definition command_Arg :: string where "command_Arg = ''arg''"
definition command_From :: string where "command_From = ''from''"
definition command_Add :: string where "command_Add = ''add''"
definition command_Copy :: string where "command_Copy = ''copy''"
definition command_Env :: string where "command_Env = ''env''"

subsection \<open>The collaborators\<close>

datatype fmode = ModeDir | ModeRegular | ModeOther

text \<open>
  What \<^verbatim>\<open>godirwalk.Walk\<close> visits below a root: every entry with its path; a directory
  with its entries, or with the error of reading it.
\<close>

datatype fsnode =
    FsFile string
  | FsDir string "fsnode list"
  | FsDirUnreadable string err

record world =
  strings_ToLower :: "string \<Rightarrow> string"
    \<comment> \<open>\<^verbatim>\<open>strings.ToLower\<close>: the lower case of every Unicode letter, by the tables of
        package \<^verbatim>\<open>unicode\<close>\<close>
  os_Getwd :: "err + string"
  os_Stat :: "string \<Rightarrow> err + fmode"
  os_Open :: "string \<Rightarrow> err + string"
    \<comment> \<open>the content of the file that is opened\<close>
  parser_Parse :: "string \<Rightarrow> err + node list"
    \<comment> \<open>\<^verbatim>\<open>res.AST.Children\<close> of \<^verbatim>\<open>parser.Parse\<close>\<close>
  dockerignore_ReadAll :: "string \<Rightarrow> err + string list"
  fileutils_NewPatternMatcher :: "string list \<Rightarrow> err + (string \<Rightarrow> err + bool)"
    \<comment> \<open>the matcher is its method \<^verbatim>\<open>Matches\<close>\<close>
  filepath_Glob :: "string \<Rightarrow> err + string list"
    \<comment> \<open>\<open>Inr []\<close> is the nil slice\<close>
  filepath_Rel :: "string \<Rightarrow> string \<Rightarrow> err + string"
  godirwalk_Tree :: "string \<Rightarrow> err + fsnode"
  RetrieveImage :: "string \<Rightarrow> (string \<rightharpoonup> bool) \<Rightarrow> err + string list"
    \<comment> \<open>\<^verbatim>\<open>img.Config.OnBuild\<close> of the image\<close>
  shell_ProcessWord :: "string \<Rightarrow> (string \<rightharpoonup> string) \<Rightarrow> err + string"
    \<comment> \<open>the environment slice is built from a map, so it is given as the map\<close>
  util_ParseEnvTemplate :: "string \<Rightarrow> err + string"
  util_ExecuteEnvTemplate :: "string \<Rightarrow> err + string"
    \<comment> \<open>executed with the nil environment\<close>
  util_Expand :: "string \<Rightarrow> string \<Rightarrow> string \<Rightarrow> string"

subsection \<open>expandBuildArgs\<close>

definition evaluateBuildArgsValue :: "world \<Rightarrow> string \<Rightarrow> err + string" where
  "evaluateBuildArgsValue w nameTemplate =
     (case util_ParseEnvTemplate w nameTemplate of
        Inl e \<Rightarrow> Inl (Wrap e ''parsing template'')
      | Inr tmpl \<Rightarrow> util_ExecuteEnvTemplate w tmpl)"

text \<open>The loop \<^verbatim>\<open>for curr := node; curr != nil; curr = curr.Next\<close>: the command and every token.\<close>

definition expandNode :: "world \<Rightarrow> string \<Rightarrow> string \<Rightarrow> node \<Rightarrow> node" where
  "expandNode w key val n =
     n\<lparr>Value := util_Expand w (Value n) key val,
       Next := map (\<lambda>v. util_Expand w v key val) (Next n)\<rparr>"

text \<open>
  The condition that stops the replacements:
  \<^verbatim>\<open>node.Value == command.Arg && strings.Split(node.Next.Value, "=")[0] == key\<close>.
\<close>

definition redefinesArg :: "string \<Rightarrow> node \<Rightarrow> err + bool" where
  "redefinesArg key n =
     (if Value n = command_Arg then
        (case Next n of
           [] \<Rightarrow> Inl NilPointer
         | v # _ \<Rightarrow>
             (case strings_Split v (CHR ''='') of
                [] \<Rightarrow> Inl IndexOutOfRange
              | k # _ \<Rightarrow> Inr (k = key)))
      else Inr False)"

text \<open>The inner loop over \<^verbatim>\<open>nodes[i+1:]\<close>.\<close>

fun replaceFrom :: "world \<Rightarrow> string \<Rightarrow> string \<Rightarrow> node list \<Rightarrow> err + node list" where
  "replaceFrom w key val [] = Inr []"
| "replaceFrom w key val (n # ns) =
     (case redefinesArg key n of
        Inl e \<Rightarrow> Inl e
      | Inr True \<Rightarrow> Inr (n # ns)
      | Inr False \<Rightarrow>
          (case replaceFrom w key val ns of
             Inl e \<Rightarrow> Inl e
           | Inr ns' \<Rightarrow> Inr (expandNode w key val n # ns')))"

text \<open>The value of a build argument: the caller's template, else the inline default, else empty.\<close>

definition buildArgValue ::
  "world \<Rightarrow> (string \<rightharpoonup> string) \<Rightarrow> string \<Rightarrow> string list \<Rightarrow> err + string" where
  "buildArgValue w buildArgs key keyValue =
     (case buildArgs key of
        Some t \<Rightarrow>
          (case evaluateBuildArgsValue w t of
             Inl e \<Rightarrow> Inl (Wrap e (''unable to get value for build arg: '' @ key))
           | Inr v \<Rightarrow> Inr v)
      | None \<Rightarrow> (case keyValue of _ # v # _ \<Rightarrow> Inr v | _ \<Rightarrow> Inr []))"

text \<open>
  One iteration of the outer loop, at index \<open>i\<close>. The nodes are pointers, so the next
  iterations see the instructions as this one leaves them.
\<close>

definition expandBuildArgsAt ::
  "world \<Rightarrow> (string \<rightharpoonup> string) \<Rightarrow> nat \<Rightarrow> node list \<Rightarrow> err + node list" where
  "expandBuildArgsAt w buildArgs i nodes =
     (let node = nodes ! i in
      if Value node \<noteq> command_Arg then Inr nodes
      else
        (case Next node of
           [] \<Rightarrow> Inl NilPointer
         | nv # _ \<Rightarrow>
             (case strings_Split nv (CHR ''='') of
                [] \<Rightarrow> Inl IndexOutOfRange
              | key # kv \<Rightarrow>
                  (case buildArgValue w buildArgs key (key # kv) of
                     Inl e \<Rightarrow> Inl e
                   | Inr val \<Rightarrow>
                       (case replaceFrom w key val (drop (Suc i) nodes) of
                          Inl e \<Rightarrow> Inl e
                        | Inr rest \<Rightarrow> Inr (take (Suc i) nodes @ rest))))))"

text \<open>The outer loop: \<open>n\<close> iterations remain, the next one is at index \<open>i\<close>.\<close>

fun expandBuildArgs_loop ::
  "world \<Rightarrow> (string \<rightharpoonup> string) \<Rightarrow> nat \<Rightarrow> nat \<Rightarrow> node list \<Rightarrow> err + node list" where
  "expandBuildArgs_loop w buildArgs 0 i nodes = Inr nodes"
| "expandBuildArgs_loop w buildArgs (Suc n) i nodes =
     (case expandBuildArgsAt w buildArgs i nodes of
        Inl e \<Rightarrow> Inl e
      | Inr nodes' \<Rightarrow> expandBuildArgs_loop w buildArgs n (Suc i) nodes')"

text \<open>\<open>Inr\<close> is the nil error, with the instructions as the in-place replacements leave them.\<close>

definition expandBuildArgs ::
  "world \<Rightarrow> (string \<rightharpoonup> string) \<Rightarrow> node list \<Rightarrow> err + node list" where
  "expandBuildArgs w buildArgs nodes = expandBuildArgs_loop w buildArgs (length nodes) 0 nodes"

subsection \<open>fromInstructions and onbuildInstructions\<close>

record from_stage =
  from_image :: string
  from_as :: string

definition fromInstruction :: "world \<Rightarrow> node \<Rightarrow> err + from_stage" where
  "fromInstruction w n =
     (case Next n of
        [] \<Rightarrow> Inl NilPointer
      | img # rest \<Rightarrow>
          Inr \<lparr>from_image = img,
               from_as = strings_ToLower w
                 (case rest of
                    a # b # _ \<Rightarrow> if strings_ToLower w a = ''as'' then b else []
                  | _ \<Rightarrow> [])\<rparr>)"

fun fromInstructions :: "world \<Rightarrow> node list \<Rightarrow> err + from_stage list" where
  "fromInstructions w [] = Inr []"
| "fromInstructions w (n # ns) =
     (if Value n = command_From then
        (case fromInstruction w n of
           Inl e \<Rightarrow> Inl e
         | Inr f \<Rightarrow>
             (case fromInstructions w ns of
                Inl e \<Rightarrow> Inl e
              | Inr fs \<Rightarrow> Inr (f # fs)))
      else fromInstructions w ns)"

text \<open>
  The loop of \<^verbatim>\<open>onbuildInstructions\<close> over the stages. \<open>stages\<close> is the key set of the map
  of stage names. The result is the list \<^verbatim>\<open>instructions\<close> together with the images that
  \<^verbatim>\<open>RetrieveImage\<close> was called with, in the order of the calls.
\<close>

fun onbuild_loop ::
  "world \<Rightarrow> (string \<rightharpoonup> bool) \<Rightarrow> string set \<Rightarrow> from_stage list \<Rightarrow> string list \<times> string list" where
  "onbuild_loop w insecureRegistries stages [] = ([], [])"
| "onbuild_loop w insecureRegistries stages (f # fs) =
     (let stages' = insert (strings_ToLower w (from_as f)) stages;
          rest = onbuild_loop w insecureRegistries stages' fs
      in if strings_ToLower w (from_image f) = ''scratch'' then rest
         else if strings_ToLower w (from_image f) \<in> stages' then rest
         else
           (case RetrieveImage w (from_image f) insecureRegistries of
              Inl e \<Rightarrow> (fst rest, from_image f # snd rest)
            | Inr onBuild \<Rightarrow>
                ((if length onBuild > 0 then onBuild else []) @ fst rest,
                 from_image f # snd rest)))"

definition onbuildInstructions ::
  "world \<Rightarrow> node list \<Rightarrow> (string \<rightharpoonup> bool) \<Rightarrow> err + node list" where
  "onbuildInstructions w nodes insecureRegistries =
     (case fromInstructions w nodes of
        Inl e \<Rightarrow> Inl e
      | Inr froms \<Rightarrow>
          (case parser_Parse w
                  (strings_Join (fst (onbuild_loop w insecureRegistries {} froms)) [CHR 0x0A]) of
             Inl e \<Rightarrow> Inl (Wrap e ''parsing ONBUILD instructions'')
           | Inr children \<Rightarrow> Inr children))"

subsection \<open>copiedFiles and processCopy\<close>

fun hasMultiStageFlag :: "string list \<Rightarrow> bool" where
  "hasMultiStageFlag [] = False"
| "hasMultiStageFlag (f # fs) =
     (if strings_HasPrefix f ''--from='' then True else hasMultiStageFlag fs)"

definition processShellWord :: "world \<Rightarrow> string \<Rightarrow> (string \<rightharpoonup> string) \<Rightarrow> err + string" where
  "processShellWord w word envs = shell_ProcessWord w word envs"

text \<open>
  The loop of \<^verbatim>\<open>processCopy\<close>. \<open>flags\<close> are \<^verbatim>\<open>value.Flags\<close> and \<open>toks\<close> the chain from
  \<^verbatim>\<open>value.Next\<close> on: the first round is at the instruction, whose flags are those of the
  instruction; every later round is at a token node, which has none.
\<close>

fun processCopy_loop ::
  "world \<Rightarrow> string list \<Rightarrow> string list \<Rightarrow> (string \<rightharpoonup> string) \<Rightarrow> string list \<Rightarrow>
   err + string list" where
  "processCopy_loop w flags [] envs copied = Inl NilPointer"
| "processCopy_loop w flags [t] envs copied = Inr copied"
| "processCopy_loop w flags (t # t' # ts) envs copied =
     (if strings_HasPrefix t' ''#'' then Inr copied
      else
        (case processShellWord w t envs of
           Inl e \<Rightarrow> Inl (Wrap e ''processing word'')
         | Inr src \<Rightarrow>
             if hasMultiStageFlag flags then Inr []
             else if \<not> strings_HasPrefix src ''http://'' \<and> \<not> strings_HasPrefix src ''https://''
             then processCopy_loop w [] (t' # ts) envs (copied @ [src])
             else processCopy_loop w [] (t' # ts) envs copied))"

definition processCopy :: "world \<Rightarrow> node \<Rightarrow> (string \<rightharpoonup> string) \<Rightarrow> err + string list" where
  "processCopy w val envs = processCopy_loop w (Flags val) (Next val) envs []"

text \<open>The loop of the \<^verbatim>\<open>command.Env\<close> case: the tokens in pairs, an odd last one is left.\<close>

fun setEnvs :: "string list \<Rightarrow> (string \<rightharpoonup> string) \<Rightarrow> (string \<rightharpoonup> string)" where
  "setEnvs (k # v # rest) envs = setEnvs rest (envs(k \<mapsto> v))"
| "setEnvs _ envs = envs"

fun copiedFiles_loop ::
  "world \<Rightarrow> node list \<Rightarrow> (string \<rightharpoonup> string) \<Rightarrow> string list list \<Rightarrow> err + string list list" where
  "copiedFiles_loop w [] envs copied = Inr copied"
| "copiedFiles_loop w (n # ns) envs copied =
     (if Value n = command_Add \<or> Value n = command_Copy then
        (case processCopy w n envs of
           Inl e \<Rightarrow> Inl e
         | Inr files \<Rightarrow>
             if length files > 0 then copiedFiles_loop w ns envs (copied @ [files])
             else copiedFiles_loop w ns envs copied)
      else if Value n = command_Env then copiedFiles_loop w ns (setEnvs (Next n) envs) copied
      else copiedFiles_loop w ns envs copied)"

definition copiedFiles :: "world \<Rightarrow> node list \<Rightarrow> err + string list list" where
  "copiedFiles w nodes = copiedFiles_loop w nodes Map.empty []"

subsection \<open>expandPaths\<close>

text \<open>
  The map \<^verbatim>\<open>expandedPaths\<close> is the list of its keys, without duplicates. The loop over the
  matches of one glob:
\<close>

fun addRelative :: "world \<Rightarrow> string \<Rightarrow> string list \<Rightarrow> string list \<Rightarrow> err + string list" where
  "addRelative w workspace [] expandedPaths = Inr expandedPaths"
| "addRelative w workspace (f # fs) expandedPaths =
     (case filepath_Rel w workspace f of
        Inl e \<Rightarrow> Inl (GettingRelativePath f)
      | Inr rel \<Rightarrow> addRelative w workspace fs (List.insert rel expandedPaths))"

text \<open>The loop over the tokens of one group; the flag is \<^verbatim>\<open>matchesOne\<close>.\<close>

fun expandFiles ::
  "world \<Rightarrow> string \<Rightarrow> string list \<Rightarrow> string list \<Rightarrow> bool \<Rightarrow> err + (string list \<times> bool)" where
  "expandFiles w workspace [] expandedPaths matchesOne = Inr (expandedPaths, matchesOne)"
| "expandFiles w workspace (p # ps) expandedPaths matchesOne =
     (let path = filepath_Join [workspace, p] in
      case os_Stat w path of
        Inr fi \<Rightarrow> expandFiles w workspace ps (List.insert p expandedPaths) True
      | Inl e \<Rightarrow>
          (case filepath_Glob w path of
             Inl e \<Rightarrow> Inl (Wrap e ''invalid glob pattern'')
           | Inr files \<Rightarrow>
               if files = [] then expandFiles w workspace ps expandedPaths matchesOne
               else
                 (case addRelative w workspace files expandedPaths of
                    Inl e \<Rightarrow> Inl e
                  | Inr expandedPaths' \<Rightarrow> expandFiles w workspace ps expandedPaths' True)))"

fun expandPaths_loop ::
  "world \<Rightarrow> string \<Rightarrow> string list list \<Rightarrow> string list \<Rightarrow> err + string list" where
  "expandPaths_loop w workspace [] expandedPaths = Inr expandedPaths"
| "expandPaths_loop w workspace (files # rest) expandedPaths =
     (case expandFiles w workspace files expandedPaths False of
        Inl e \<Rightarrow> Inl e
      | Inr (expandedPaths', matchesOne) \<Rightarrow>
          if \<not> matchesOne then Inl (FilePatternNoMatch files)
          else expandPaths_loop w workspace rest expandedPaths')"

text \<open>The keys are returned in the order of a map iteration, which Go leaves open.\<close>

definition expandPaths :: "world \<Rightarrow> string \<Rightarrow> string list list \<Rightarrow> err + string list" where
  "expandPaths w workspace copied = expandPaths_loop w workspace copied []"

subsection \<open>readDockerfile\<close>

definition readDockerfile ::
  "world \<Rightarrow> string \<Rightarrow> string \<Rightarrow> (string \<rightharpoonup> string) \<Rightarrow> (string \<rightharpoonup> bool) \<Rightarrow> err + string list" where
  "readDockerfile w workspace absDockerfilePath buildArgs insecureRegistries =
     (case os_Open w absDockerfilePath of
        Inl e \<Rightarrow> Inl (Wrap e (''opening dockerfile: '' @ absDockerfilePath))
      | Inr f \<Rightarrow>
          (case parser_Parse w f of
             Inl e \<Rightarrow> Inl (Wrap e ''parsing dockerfile'')
           | Inr children \<Rightarrow>
               (case expandBuildArgs w buildArgs children of
                  Inl e \<Rightarrow> Inl (Wrap e ''putting build arguments'')
                | Inr dockerfileLines \<Rightarrow>
                    (case onbuildInstructions w dockerfileLines insecureRegistries of
                       Inl e \<Rightarrow> Inl (Wrap e ''listing ONBUILD instructions'')
                     | Inr instructions \<Rightarrow>
                         (case copiedFiles w (instructions @ dockerfileLines) of
                            Inl e \<Rightarrow> Inl (Wrap e ''listing copied files'')
                          | Inr copied \<Rightarrow> expandPaths w workspace copied)))))"

subsection \<open>NormalizeDockerfilePath\<close>

definition filepath_Abs :: "world \<Rightarrow> string \<Rightarrow> err + string" where
  "filepath_Abs w p =
     (if filepath_IsAbs p then Inr (filepath_Clean p)
      else (case os_Getwd w of
              Inl e \<Rightarrow> Inl e
            | Inr wd \<Rightarrow> Inr (filepath_Join [wd, p])))"

definition NormalizeDockerfilePath :: "world \<Rightarrow> string \<Rightarrow> string \<Rightarrow> err + string" where
  "NormalizeDockerfilePath w context dockerfile =
     (if filepath_IsAbs dockerfile then Inr dockerfile
      else filepath_Abs w
             (if \<not> strings_HasPrefix dockerfile context then filepath_Join [context, dockerfile]
              else dockerfile))"

subsection \<open>WalkWorkspace\<close>

text \<open>
  The callback given to \<^verbatim>\<open>godirwalk.Walk\<close>. The map \<^verbatim>\<open>files\<close> is the list of its keys,
  without duplicates. The result says whether the callback returned \<^verbatim>\<open>filepath.SkipDir\<close>.
\<close>

definition walkCallback ::
  "world \<Rightarrow> string \<Rightarrow> string \<Rightarrow> (string \<Rightarrow> err + bool) \<Rightarrow> string \<Rightarrow> bool \<Rightarrow> string list \<Rightarrow>
   err + (bool \<times> string list)" where
  "walkCallback w workspace absDep pExclude fpath isDir files =
     (if fpath = absDep then Inr (False, files)
      else
        (case filepath_Rel w workspace fpath of
           Inl e \<Rightarrow> Inl e
         | Inr relPath \<Rightarrow>
             (case pExclude relPath of
                Inl e \<Rightarrow> Inl e
              | Inr ignored \<Rightarrow>
                  if isDir then (if ignored then Inr (True, files) else Inr (False, files))
                  else if \<not> ignored then Inr (False, List.insert relPath files)
                  else Inr (False, files))))"

text \<open>
  \<^verbatim>\<open>godirwalk.Walk\<close>: the callback on an entry, then on the entries of a directory unless
  the callback asked to skip it; the first error stops the walk.
\<close>

fun walk :: "world \<Rightarrow> string \<Rightarrow> string \<Rightarrow> (string \<Rightarrow> err + bool) \<Rightarrow> fsnode \<Rightarrow> string list \<Rightarrow>
             err + string list"
and walkChildren ::
  "world \<Rightarrow> string \<Rightarrow> string \<Rightarrow> (string \<Rightarrow> err + bool) \<Rightarrow> fsnode list \<Rightarrow> string list \<Rightarrow>
   err + string list" where
  "walk w workspace absDep pExclude (FsFile fpath) files =
     (case walkCallback w workspace absDep pExclude fpath False files of
        Inl e \<Rightarrow> Inl e
      | Inr (skip, files') \<Rightarrow> Inr files')"
| "walk w workspace absDep pExclude (FsDir fpath children) files =
     (case walkCallback w workspace absDep pExclude fpath True files of
        Inl e \<Rightarrow> Inl e
      | Inr (skip, files') \<Rightarrow>
          if skip then Inr files'
          else walkChildren w workspace absDep pExclude children files')"
| "walk w workspace absDep pExclude (FsDirUnreadable fpath e) files =
     (case walkCallback w workspace absDep pExclude fpath True files of
        Inl e' \<Rightarrow> Inl e'
      | Inr (skip, files') \<Rightarrow> if skip then Inr files' else Inl e)"
| "walkChildren w workspace absDep pExclude [] files = Inr files"
| "walkChildren w workspace absDep pExclude (c # cs) files =
     (case walk w workspace absDep pExclude c files of
        Inl e \<Rightarrow> Inl e
      | Inr files' \<Rightarrow> walkChildren w workspace absDep pExclude cs files')"

text \<open>The loop of \<^verbatim>\<open>WalkWorkspace\<close> over the dependencies.\<close>

fun WalkWorkspace_loop ::
  "world \<Rightarrow> string \<Rightarrow> (string \<Rightarrow> err + bool) \<Rightarrow> string list \<Rightarrow> string list \<Rightarrow> err + string list" where
  "WalkWorkspace_loop w workspace pExclude [] files = Inr files"
| "WalkWorkspace_loop w workspace pExclude (dep0 # deps) files =
     (let dep = filepath_Clean dep0;
          absDep = filepath_Join [workspace, dep]
      in case os_Stat w absDep of
           Inl e \<Rightarrow> Inl (Wrap e (''stating file '' @ absDep))
         | Inr ModeDir \<Rightarrow>
             (case godirwalk_Tree w absDep of
                Inl e \<Rightarrow> Inl (Wrap e (''walking folder '' @ absDep))
              | Inr tree \<Rightarrow>
                  (case walk w workspace absDep pExclude tree files of
                     Inl e \<Rightarrow> Inl (Wrap e (''walking folder '' @ absDep))
                   | Inr files' \<Rightarrow> WalkWorkspace_loop w workspace pExclude deps files'))
         | Inr ModeRegular \<Rightarrow>
             (case pExclude dep of
                Inl e \<Rightarrow> Inl e
              | Inr ignored \<Rightarrow>
                  if \<not> ignored
                  then WalkWorkspace_loop w workspace pExclude deps (List.insert dep files)
                  else WalkWorkspace_loop w workspace pExclude deps files)
         | Inr ModeOther \<Rightarrow> WalkWorkspace_loop w workspace pExclude deps files)"

definition WalkWorkspace ::
  "world \<Rightarrow> string \<Rightarrow> string list \<Rightarrow> string list \<Rightarrow> err + string list" where
  "WalkWorkspace w workspace excludes deps =
     (case fileutils_NewPatternMatcher w excludes of
        Inl e \<Rightarrow> Inl (Wrap e ''invalid exclude patterns'')
      | Inr pExclude \<Rightarrow> WalkWorkspace_loop w workspace pExclude deps [])"

subsection \<open>GetDependencies\<close>

text \<open>The patterns to ignore: none when the stat of the ignore file says that it does not exist.\<close>

definition readExcludes :: "world \<Rightarrow> string \<Rightarrow> err + string list" where
  "readExcludes w workspace =
     (let dockerignorePath = filepath_Join [workspace, ''.dockerignore''];
          present = (case os_Stat w dockerignorePath of
                       Inl e \<Rightarrow> \<not> os_IsNotExist e
                     | Inr fi \<Rightarrow> True)
      in if present then
           (case os_Open w dockerignorePath of
              Inl e \<Rightarrow> Inl e
            | Inr r \<Rightarrow> dockerignore_ReadAll w r)
         else Inr [])"

text \<open>
  \<open>buildArgs\<close> is \<^verbatim>\<open>map[string]*string\<close>: \<open>None\<close> is a missing key or a nil pointer. The keys
  of \<^verbatim>\<open>files\<close> are collected in the order of a map iteration and then sorted, so the
  result does not depend on that order.
\<close>

definition GetDependencies ::
  "world \<Rightarrow> string \<Rightarrow> string \<Rightarrow> (string \<rightharpoonup> string) \<Rightarrow> (string \<rightharpoonup> bool) \<Rightarrow> err + string list" where
  "GetDependencies w workspace dockerfilePath buildArgs insecureRegistries =
     (case NormalizeDockerfilePath w workspace dockerfilePath of
        Inl e \<Rightarrow> Inl (Wrap e ''normalizing dockerfile path'')
      | Inr absDockerfilePath \<Rightarrow>
          (case readDockerfile w workspace absDockerfilePath buildArgs insecureRegistries of
             Inl e \<Rightarrow> Inl e
           | Inr deps \<Rightarrow>
               (case readExcludes w workspace of
                  Inl e \<Rightarrow> Inl e
                | Inr excludes \<Rightarrow>
                    (case WalkWorkspace w workspace excludes deps of
                       Inl e \<Rightarrow> Inl (Wrap e ''walking workspace'')
                     | Inr files \<Rightarrow>
                         (let files' = (if \<not> filepath_IsAbs dockerfilePath
                                        then List.insert dockerfilePath files
                                        else List.insert absDockerfilePath files);
                              files'' = removeAll ''.dockerignore'' files'
                          in Inr (sort files''))))))"

subsection \<open>A workspace for the examples\<close>

text \<open>
  The workspace \<^verbatim>\<open>/ws\<close> of the test of the build context: \<^verbatim>\<open>Dockerfile\<close> with the lines
  \<^verbatim>\<open>FROM alpine\<close> and \<^verbatim>\<open>COPY ./files /files\<close>, \<^verbatim>\<open>.dockerignore\<close> with the pattern
  \<^verbatim>\<open>**/ignored.txt\<close>, the files \<^verbatim>\<open>ignored.txt\<close>, \<^verbatim>\<open>files/ignored.txt\<close> and
  \<^verbatim>\<open>files/included.txt\<close>. The collaborators are tables of the answers that the real ones
  give on the paths, patterns and words of this workspace.
\<close>

definition demo_dockerfile :: string where
  "demo_dockerfile = ''FROM alpine'' @ [CHR 0x0A] @ ''COPY ./files /files''"

definition demo_stat :: "string \<Rightarrow> err + fmode" where
  "demo_stat p =
     (if p = ''/ws'' \<or> p = ''/ws/files'' then Inr ModeDir
      else if p = ''/ws/Dockerfile'' \<or> p = ''/ws/.dockerignore'' \<or> p = ''/ws/ignored.txt''
              \<or> p = ''/ws/files/ignored.txt'' \<or> p = ''/ws/files/included.txt''
      then Inr ModeRegular
      else Inl ErrNotExist)"

definition demo_open :: "string \<Rightarrow> err + string" where
  "demo_open p =
     (if p = ''/ws/Dockerfile'' then Inr demo_dockerfile
      else if p = ''/ws/.dockerignore'' then Inr ''**/ignored.txt''
      else Inl ErrNotExist)"

definition demo_parse :: "string \<Rightarrow> err + node list" where
  "demo_parse src =
     (if src = demo_dockerfile then
        Inr [\<lparr>Value = ''from'', Next = [''alpine''], Flags = []\<rparr>,
             \<lparr>Value = ''copy'', Next = [''./files'', ''/files''], Flags = []\<rparr>]
      else if src = ''FROM scratch'' then
        Inr [\<lparr>Value = ''from'', Next = [''scratch''], Flags = []\<rparr>]
      else if src = [] then Inr []
      else Inl (ErrOther ''not a Dockerfile of the examples''))"

definition demo_matcher :: "string list \<Rightarrow> string \<Rightarrow> err + bool" where
  "demo_matcher patterns p =
     Inr (''**/ignored.txt'' \<in> set patterns \<and> (p = ''ignored.txt'' \<or> p = ''files/ignored.txt''))"

definition demo_glob :: "string \<Rightarrow> err + string list" where
  "demo_glob pattern =
     (if pattern = ''/ws/[bad'' then Inl ErrBadPattern
      else if pattern = ''/ws/*.txt'' then Inr [''/ws/ignored.txt'']
      else Inr [])"

definition demo_rel :: "string \<Rightarrow> string \<Rightarrow> err + string" where
  "demo_rel basepath targpath =
     (if strings_HasPrefix targpath (basepath @ ''/'')
      then Inr (drop (length basepath + 1) targpath)
      else Inl (ErrOther ''not below the base path''))"

definition demo_tree :: "string \<Rightarrow> err + fsnode" where
  "demo_tree root =
     (if root = ''/ws/files''
      then Inr (FsDir ''/ws/files''
                  [FsFile ''/ws/files/ignored.txt'', FsFile ''/ws/files/included.txt''])
      else if root = ''/ws''
      then Inr (FsDir ''/ws''
                  [FsFile ''/ws/.dockerignore'', FsFile ''/ws/Dockerfile'',
                   FsDir ''/ws/files''
                     [FsFile ''/ws/files/ignored.txt'', FsFile ''/ws/files/included.txt''],
                   FsFile ''/ws/ignored.txt''])
      else Inl ErrNotExist)"

definition demo_retrieve :: "string \<Rightarrow> (string \<rightharpoonup> bool) \<Rightarrow> err + string list" where
  "demo_retrieve img insecureRegistries =
     (if img = ''alpine'' then Inr []
      else if img = ''golang:onbuild'' then Inr [''COPY . /go/src/app'']
      else Inl (ErrOther ''no such image''))"

definition demo_processWord :: "string \<Rightarrow> (string \<rightharpoonup> string) \<Rightarrow> err + string" where
  "demo_processWord word envs =
     (if word = ''${foo'' then Inl (ErrOther ''missing : in substitution'') else Inr word)"

definition demo_expand :: "string \<Rightarrow> string \<Rightarrow> string \<Rightarrow> string" where
  "demo_expand text key val =
     (if text = ''$'' @ key \<or> text = ''${'' @ key @ ''}'' then val else text)"

text \<open>
  The names of the examples are ASCII, where the lower case of the bytes \<open>A\<close>..\<open>Z\<close> is the
  byte 32 above and every other byte is kept.
\<close>

definition demo_toLower :: "string \<Rightarrow> string" where
  "demo_toLower s =
     map (\<lambda>c. let n = (of_char c :: nat) in if 65 \<le> n \<and> n \<le> 90 then char_of (n + 32) else c) s"

definition demo :: world where
  "demo =
     \<lparr>strings_ToLower = demo_toLower,
      os_Getwd = Inr ''/'',
      os_Stat = demo_stat,
      os_Open = demo_open,
      parser_Parse = demo_parse,
      dockerignore_ReadAll = (\<lambda>r. Inr (filter (\<lambda>l. l \<noteq> []) (strings_Split r (CHR 0x0A)))),
      fileutils_NewPatternMatcher = (\<lambda>patterns. Inr (demo_matcher patterns)),
      filepath_Glob = demo_glob,
      filepath_Rel = demo_rel,
      godirwalk_Tree = demo_tree,
      RetrieveImage = demo_retrieve,
      shell_ProcessWord = demo_processWord,
      util_ParseEnvTemplate = Inr,
      util_ExecuteEnvTemplate = Inr,
      util_Expand = demo_expand\<rparr>"

text \<open>The same workspace, with a \<^verbatim>\<open>.dockerignore\<close> that holds the line \<^verbatim>\<open>FROM scratch\<close>.\<close>

definition demo_from_scratch :: world where
  "demo_from_scratch =
     demo\<lparr>os_Open := (\<lambda>p. if p = ''/ws/.dockerignore'' then Inr ''FROM scratch''
                           else demo_open p)\<rparr>"

definition no_buildArgs :: "string \<rightharpoonup> string" where
  "no_buildArgs = Map.empty"

definition no_insecureRegistries :: "string \<rightharpoonup> bool" where
  "no_insecureRegistries = Map.empty"

text \<open>The same workspace, when no registry and no daemon can be reached.\<close>

definition demo_offline :: world where
  "demo_offline =
     demo\<lparr>RetrieveImage := (\<lambda>img insecureRegistries. Inl (ErrOther ''registry unreachable''))\<rparr>"

subsection \<open>A world in which no lookup fails\<close>

text \<open>
  The world that answers a failing \<^verbatim>\<open>RetrieveImage\<close> with an image without
  \<^verbatim>\<open>ONBUILD\<close> triggers, and is the given world otherwise. It is what the resolution of a
  world with failing lookups is compared with.
\<close>

definition lookupFailuresAsNoTriggers :: "world \<Rightarrow> world" where
  "lookupFailuresAsNoTriggers w =
     w\<lparr>RetrieveImage :=
         (\<lambda>img insecureRegistries.
            case RetrieveImage w img insecureRegistries of
              Inl e \<Rightarrow> Inr []
            | Inr onBuild \<Rightarrow> Inr onBuild)\<rparr>"

section \<open>Properties of the result of GetDependencies\<close>

subsection \<open>The shape of a successful resolution\<close>

lemma NormalizeDockerfilePath_abs:
  "filepath_IsAbs dockerfile \<Longrightarrow> NormalizeDockerfilePath w context dockerfile = Inr dockerfile"
  by (simp add: NormalizeDockerfilePath_def)

text \<open>
  Both branches of the insertion of the Dockerfile insert the argument as it was given: for
  an absolute argument \<^verbatim>\<open>absDockerfilePath\<close> is the argument itself.
\<close>

lemma GetDependencies_Inr:
  assumes "GetDependencies w workspace dockerfilePath buildArgs insecureRegistries = Inr deps"
  shows "\<exists>absPath deps0 excludes files.
           NormalizeDockerfilePath w workspace dockerfilePath = Inr absPath \<and>
           readDockerfile w workspace absPath buildArgs insecureRegistries = Inr deps0 \<and>
           readExcludes w workspace = Inr excludes \<and>
           WalkWorkspace w workspace excludes deps0 = Inr files \<and>
           deps = sort (removeAll ''.dockerignore'' (List.insert dockerfilePath files))"
proof (cases "filepath_IsAbs dockerfilePath")
  case True
  then have n: "NormalizeDockerfilePath w workspace dockerfilePath = Inr dockerfilePath"
    by (rule NormalizeDockerfilePath_abs)
  from assms show ?thesis
    unfolding GetDependencies_def n using True
    by (auto simp: Let_def split: sum.splits)
next
  case False
  from assms show ?thesis
    unfolding GetDependencies_def using False
    by (auto simp: Let_def split: sum.splits)
qed

subsection \<open>The key list of the walk has no duplicates\<close>

lemma walkCallback_distinct:
  "walkCallback w workspace absDep pExclude fpath isDir files = Inr (skip, files') \<Longrightarrow>
   distinct files \<Longrightarrow> distinct files'"
  by (auto simp: walkCallback_def split: if_splits sum.splits)

lemma walk_distinct:
  "(walk w workspace absDep pExclude n files = Inr files' \<longrightarrow> distinct files \<longrightarrow> distinct files')"
  "(walkChildren w workspace absDep pExclude ns files = Inr files' \<longrightarrow> distinct files \<longrightarrow> distinct files')"
proof (induction w workspace absDep pExclude n files and w workspace absDep pExclude ns files
       arbitrary: files' and files' rule: walk_walkChildren.induct)
  case (1 w workspace absDep pExclude fpath files)
  then show ?case by (auto split: sum.splits dest: walkCallback_distinct)
next
  case (2 w workspace absDep pExclude fpath children files)
  show ?case
  proof (intro impI)
    assume a: "walk w workspace absDep pExclude (FsDir fpath children) files = Inr files'"
      and d: "distinct files"
    from a obtain skip b where
      cb: "walkCallback w workspace absDep pExclude fpath True files = Inr (skip, b)"
      by (auto split: sum.splits)
    have db: "distinct b" using cb d by (rule walkCallback_distinct)
    show "distinct files'"
    proof (cases skip)
      case True
      with a cb db show ?thesis by simp
    next
      case False
      with a cb have "walkChildren w workspace absDep pExclude children b = Inr files'"
        by simp
      with "2.IH" [OF cb refl False] db show ?thesis by blast
    qed
  qed
next
  case (3 w workspace absDep pExclude fpath e files)
  then show ?case by (auto split: sum.splits if_splits dest: walkCallback_distinct)
next
  case (4 w workspace absDep pExclude files)
  then show ?case by simp
next
  case (5 w workspace absDep pExclude c cs files)
  then show ?case by (auto split: sum.splits)
qed

lemma WalkWorkspace_loop_distinct:
  "WalkWorkspace_loop w workspace pExclude deps files = Inr files' \<Longrightarrow>
   distinct files \<Longrightarrow> distinct files'"
proof (induction deps arbitrary: files)
  case Nil
  then show ?case by simp
next
  case (Cons d deps)
  then show ?case
    by (auto simp: Let_def walk_distinct split: sum.splits fmode.splits if_splits)
qed

lemma WalkWorkspace_distinct:
  "WalkWorkspace w workspace excludes deps = Inr files \<Longrightarrow> distinct files"
  by (auto simp: WalkWorkspace_def split: sum.splits dest: WalkWorkspace_loop_distinct)

subsection \<open>The resolution of the example workspace\<close>

lemma demo_Dockerfile_deps:
  "GetDependencies demo ''/ws'' ''Dockerfile'' no_buildArgs no_insecureRegistries =
     Inr [''Dockerfile'', ''files/included.txt'']"
  by code_simp

lemma demo_abs_Dockerfile_deps:
  "GetDependencies demo ''/ws'' ''/ws/Dockerfile'' no_buildArgs no_insecureRegistries =
     Inr [''/ws/Dockerfile'', ''files/included.txt'']"
  by code_simp

lemma demo_dockerignore_as_Dockerfile_deps:
  "GetDependencies demo_from_scratch ''/ws'' ''.dockerignore'' no_buildArgs no_insecureRegistries =
     Inr []"
  by code_simp

subsection \<open>The Dockerfile is a dependency\<close>

text \<open>
  Claim C1, as the code has it: whenever \<^verbatim>\<open>GetDependencies\<close> returns without error and
  its argument \<^verbatim>\<open>dockerfilePath\<close> is not the string \<^verbatim>\<open>.dockerignore\<close>, the argument is
  an element of the returned list, whatever the ignore patterns match. The condition on the
  argument is needed: the key \<^verbatim>\<open>.dockerignore\<close> is deleted after the Dockerfile has been
  inserted.
\<close>

theorem GetDependencies_dockerfile_present:
  assumes "GetDependencies w workspace dockerfilePath buildArgs insecureRegistries = Inr deps"
    and "dockerfilePath \<noteq> ''.dockerignore''"
  shows "dockerfilePath \<in> set deps"
  using GetDependencies_Inr [OF assms(1)] assms(2) by auto

theorem GetDependencies_dockerfile_present_witness:
  "GetDependencies demo ''/ws'' ''Dockerfile'' no_buildArgs no_insecureRegistries =
     Inr [''Dockerfile'', ''files/included.txt''] \<and>
   ''Dockerfile'' \<noteq> ''.dockerignore'' \<and>
   ''Dockerfile'' \<in> set [''Dockerfile'', ''files/included.txt'']"
  using GetDependencies_dockerfile_present [OF demo_Dockerfile_deps] demo_Dockerfile_deps
  by simp

text \<open>
  Without the condition the claim fails: in the workspace whose \<^verbatim>\<open>.dockerignore\<close> holds
  the line \<^verbatim>\<open>FROM scratch\<close>, the resolution of the Dockerfile \<^verbatim>\<open>.dockerignore\<close> returns
  without error, and the returned list is empty.
\<close>

theorem GetDependencies_dockerfile_absent_counterexample:
  "GetDependencies demo_from_scratch ''/ws'' ''.dockerignore'' no_buildArgs no_insecureRegistries =
     Inr [] \<and>
   ''.dockerignore'' \<notin> set ([] :: string list)"
  using demo_dockerignore_as_Dockerfile_deps by simp

subsection \<open>The ignore file is not a dependency\<close>

text \<open>
  Claim C2: whenever \<^verbatim>\<open>GetDependencies\<close> returns without error, the workspace-relative
  path \<^verbatim>\<open>.dockerignore\<close> of the ignore file is not an element of the returned list.
\<close>

theorem GetDependencies_no_dockerignore:
  assumes "GetDependencies w workspace dockerfilePath buildArgs insecureRegistries = Inr deps"
  shows "''.dockerignore'' \<notin> set deps"
  using GetDependencies_Inr [OF assms(1)] by auto

theorem GetDependencies_no_dockerignore_witness:
  "GetDependencies demo_from_scratch ''/ws'' ''.dockerignore'' no_buildArgs no_insecureRegistries =
     Inr [] \<and>
   ''.dockerignore'' \<notin> set ([] :: string list)"
  using GetDependencies_no_dockerignore [OF demo_dockerignore_as_Dockerfile_deps]
    demo_dockerignore_as_Dockerfile_deps
  by simp

subsection \<open>The returned list is sorted and has no duplicates\<close>

text \<open>
  The keys are sorted after the last change of the key set, and a key set has no duplicates:
  whenever \<^verbatim>\<open>GetDependencies\<close> returns without error, the returned list is sorted and
  has no duplicates.
\<close>

lemma GetDependencies_sorted_distinct:
  assumes "GetDependencies w workspace dockerfilePath buildArgs insecureRegistries = Inr deps"
  shows "sorted deps \<and> distinct deps"
proof -
  from GetDependencies_Inr [OF assms] obtain deps0 excludes files where
    h: "WalkWorkspace w workspace excludes deps0 = Inr files"
       "deps = sort (removeAll ''.dockerignore'' (List.insert dockerfilePath files))"
    by blast
  have d: "distinct files" using h(1) by (rule WalkWorkspace_distinct)
  have "sorted deps" using h(2) by simp
  moreover have "distinct deps" using h(2) d by (simp add: distinct_removeAll)
  ultimately show ?thesis by simp
qed

subsection \<open>An absolute Dockerfile path is returned as it is\<close>

text \<open>
  Claim C3 says that the list returned by \<^verbatim>\<open>GetDependencies\<close> is sorted, has no
  duplicates, and holds only paths relative to the workspace, also for an absolute argument
  \<^verbatim>\<open>dockerfilePath\<close>; the comment of the function says the same: all paths are relative to
  the workspace. The code does not do that: the resolution of the Dockerfile
  \<^verbatim>\<open>/ws/Dockerfile\<close> in the workspace \<^verbatim>\<open>/ws\<close> returns without error, and the absolute
  path \<^verbatim>\<open>/ws/Dockerfile\<close> is the first element of the returned list.
\<close>

theorem GetDependencies_absolute_dockerfile:
  "GetDependencies demo ''/ws'' ''/ws/Dockerfile'' no_buildArgs no_insecureRegistries =
     Inr [''/ws/Dockerfile'', ''files/included.txt''] \<and>
   filepath_IsAbs ''/ws/Dockerfile''"
  using demo_abs_Dockerfile_deps by (simp add: filepath_IsAbs_def strings_HasPrefix_def)

section \<open>Properties of expandPaths\<close>

subsection \<open>The loops over the tokens and over the groups\<close>






subsection \<open>Groups of the example workspace\<close>


lemma demo_stat_ignored: "os_Stat demo (filepath_Join [''/ws'', ''ignored.txt'']) = Inr ModeRegular"
  by code_simp









subsection \<open>A group that matches nothing, a group that matches\<close>





subsection \<open>A token that is not a valid pattern\<close>



section \<open>Properties of expandBuildArgs\<close>

subsection \<open>The replacements of one declaration\<close>

text \<open>
  The inner loop replaces in every instruction up to the first one that declares the same
  name again, and leaves that instruction and the ones after it as they are.
\<close>

lemma replaceFrom_scope:
  "\<forall>n\<in>set mid. redefinesArg key n = Inr False \<Longrightarrow>
   redefinesArg key r = Inr True \<Longrightarrow>
   replaceFrom w key val (mid @ r # post) = Inr (map (expandNode w key val) mid @ r # post)"
  by (induction mid) simp_all

text \<open>No iteration of the outer loop changes an instruction before or at its index.\<close>

lemma replaceFrom_length:
  "replaceFrom w key val ns = Inr ns' \<Longrightarrow> length ns' = length ns"
  by (induction ns arbitrary: ns') (auto split: sum.splits bool.splits)

lemma expandBuildArgsAt_prefix:
  assumes "expandBuildArgsAt w buildArgs j nodes = Inr nodes'"
  shows "take (Suc j) nodes' = take (Suc j) nodes"
proof (cases "Value (nodes ! j) \<noteq> command_Arg")
  case True
  with assms show ?thesis by (simp add: expandBuildArgsAt_def)
next
  case False
  with assms obtain key val rest where
    r: "replaceFrom w key val (drop (Suc j) nodes) = Inr rest"
    and n: "nodes' = take (Suc j) nodes @ rest"
    by (auto simp: expandBuildArgsAt_def Let_def split: list.splits sum.splits)
  from replaceFrom_length [OF r] have "length rest = length nodes - Suc j" by simp
  then have "take (Suc j - length (take (Suc j) nodes)) rest = []"
    by (cases "Suc j \<le> length nodes") simp_all
  with n show ?thesis by simp
qed

lemma expandBuildArgs_loop_prefix:
  "expandBuildArgs_loop w buildArgs n i nodes = Inr nodes' \<Longrightarrow> take i nodes' = take i nodes"
proof (induction n arbitrary: i nodes)
  case 0
  then show ?case by simp
next
  case (Suc n)
  from Suc.prems obtain nodes1 where
    s: "expandBuildArgsAt w buildArgs i nodes = Inr nodes1"
    and l: "expandBuildArgs_loop w buildArgs n (Suc i) nodes1 = Inr nodes'"
    by (auto split: sum.splits)
  from Suc.IH [OF l] have "take (Suc i) nodes' = take (Suc i) nodes1" .
  also from expandBuildArgsAt_prefix [OF s] have "\<dots> = take (Suc i) nodes" .
  finally have "take i (take (Suc i) nodes') = take i (take (Suc i) nodes)" by simp
  then show ?case by (simp add: min_def)
qed

subsection \<open>The scope of a build argument\<close>

text \<open>
  Claim C5. Let the outer loop be at the declaration \<open>d\<close> of the name \<open>key\<close> with the value
  \<open>val\<close>, let \<open>r\<close> be the first later instruction that declares \<open>key\<close> again, and \<open>mid\<close>
  the instructions between them. Then the iteration at \<open>d\<close> replaces \<open>key\<close> by \<open>val\<close> in the
  command and in every token of every instruction of \<open>mid\<close>, and leaves \<open>r\<close> and every
  instruction after it as they are. And the iterations from \<open>r\<close> on, however many, leave
  every instruction before \<open>r\<close> as it is: what was replaced for \<open>d\<close> is not changed by the
  declaration \<open>r\<close>.
\<close>

theorem expandBuildArgs_scoped:
  assumes "Value d = command_Arg"
    and "Next d = nv # nvs"
    and "strings_Split nv (CHR ''='') = key # kv"
    and "buildArgValue w buildArgs key (key # kv) = Inr val"
    and "\<forall>n\<in>set mid. redefinesArg key n = Inr False"
    and "redefinesArg key r = Inr True"
  shows "expandBuildArgsAt w buildArgs (length pre) (pre @ d # mid @ r # post) =
           Inr (pre @ d # map (expandNode w key val) mid @ r # post) \<and>
         (\<forall>n nodes nodes'.
            expandBuildArgs_loop w buildArgs n (length pre + Suc (length mid)) nodes =
              Inr nodes' \<longrightarrow>
            take (length pre + Suc (length mid)) nodes' =
            take (length pre + Suc (length mid)) nodes)"
proof
  have "replaceFrom w key val (mid @ r # post) =
          Inr (map (expandNode w key val) mid @ r # post)"
    using assms(5,6) by (rule replaceFrom_scope)
  with assms(1-4)
  show "expandBuildArgsAt w buildArgs (length pre) (pre @ d # mid @ r # post) =
          Inr (pre @ d # map (expandNode w key val) mid @ r # post)"
    by (simp add: expandBuildArgsAt_def)
next
  show "\<forall>n nodes nodes'.
          expandBuildArgs_loop w buildArgs n (length pre + Suc (length mid)) nodes =
            Inr nodes' \<longrightarrow>
          take (length pre + Suc (length mid)) nodes' =
          take (length pre + Suc (length mid)) nodes"
    by (intro allI impI) (rule expandBuildArgs_loop_prefix)
qed

subsection \<open>A name that is declared twice\<close>

text \<open>
  The result of the whole of \<^verbatim>\<open>expandBuildArgs\<close> on a list in which \<open>d\<close> and \<open>r\<close> declare
  the same name and no other instruction is an argument declaration, before or after the
  replacements: the instructions between \<open>d\<close> and \<open>r\<close> hold the value of \<open>d\<close>, the
  instructions after \<open>r\<close> the value of \<open>r\<close>.
\<close>

lemma replaceFrom_all:
  "\<forall>n\<in>set ns. redefinesArg key n = Inr False \<Longrightarrow>
   replaceFrom w key val ns = Inr (map (expandNode w key val) ns)"
  by (induction ns) simp_all

lemma expandBuildArgs_loop_skip:
  "\<forall>k. i \<le> k \<and> k < i + n \<longrightarrow> Value (nodes ! k) \<noteq> command_Arg \<Longrightarrow>
   expandBuildArgs_loop w buildArgs n i nodes = Inr nodes"
proof (induction n arbitrary: i)
  case 0
  then show ?case by simp
next
  case (Suc n)
  from Suc.prems have "Value (nodes ! i) \<noteq> command_Arg" by simp
  then have s: "expandBuildArgsAt w buildArgs i nodes = Inr nodes"
    by (simp add: expandBuildArgsAt_def)
  from Suc.prems have "\<forall>k. Suc i \<le> k \<and> k < Suc i + n \<longrightarrow> Value (nodes ! k) \<noteq> command_Arg"
    by simp
  from Suc.IH [OF this] s show ?case by simp
qed

lemma expandBuildArgs_loop_add:
  "expandBuildArgs_loop w buildArgs (n + m) i nodes =
     (case expandBuildArgs_loop w buildArgs n i nodes of
        Inl e \<Rightarrow> Inl e
      | Inr nodes' \<Rightarrow> expandBuildArgs_loop w buildArgs m (i + n) nodes')"
  by (induction n arbitrary: i nodes) (simp_all split: sum.splits)

lemma redefinesArg_other: "Value n \<noteq> command_Arg \<Longrightarrow> redefinesArg key n = Inr False"
  by (simp add: redefinesArg_def)

lemma expandBuildArgs_redeclared:
  assumes d: "Value d = command_Arg" "Next d = nv # nvs"
      "strings_Split nv (CHR ''='') = key # kv"
      "buildArgValue w buildArgs key (key # kv) = Inr val"
    and r: "Value r = command_Arg" "Next r = nv2 # nvs2"
      "strings_Split nv2 (CHR ''='') = key # kv2"
      "buildArgValue w buildArgs key (key # kv2) = Inr val2"
    and pre: "\<forall>n\<in>set pre. Value n \<noteq> command_Arg"
    and mid: "\<forall>n\<in>set mid. Value n \<noteq> command_Arg \<and>
                              Value (expandNode w key val n) \<noteq> command_Arg"
    and post: "\<forall>n\<in>set post. Value n \<noteq> command_Arg \<and>
                               Value (expandNode w key val2 n) \<noteq> command_Arg"
  shows "expandBuildArgs w buildArgs (pre @ d # mid @ r # post) =
           Inr (pre @ d # map (expandNode w key val) mid @ r #
                map (expandNode w key val2) post)"
proof -
  let ?mid' = "map (expandNode w key val) mid"
  let ?post' = "map (expandNode w key val2) post"
  let ?S0 = "pre @ d # mid @ r # post"
  let ?S1 = "pre @ d # ?mid' @ r # post"
  let ?S2 = "pre @ d # ?mid' @ r # ?post'"
  let ?j = "length pre + Suc (length mid)"
  have rr: "redefinesArg key r = Inr True"
    using r(1-3) by (simp add: redefinesArg_def)
  have mm: "\<forall>n\<in>set mid. redefinesArg key n = Inr False"
    using mid by (simp add: redefinesArg_other)
  have pp: "\<forall>n\<in>set post. redefinesArg key n = Inr False"
    using post by (simp add: redefinesArg_other)
  have l0: "expandBuildArgs_loop w buildArgs (length pre) 0 ?S0 = Inr ?S0"
  proof (rule expandBuildArgs_loop_skip, intro allI impI)
    fix k assume "0 \<le> k \<and> k < 0 + length pre"
    then have "k < length pre" by simp
    with pre show "Value (?S0 ! k) \<noteq> command_Arg" by (simp add: nth_append)
  qed
  have s1: "expandBuildArgsAt w buildArgs (length pre) ?S0 = Inr ?S1"
    using replaceFrom_scope [OF mm rr, of w val post] d
    by (simp add: expandBuildArgsAt_def)
  have l1: "expandBuildArgs_loop w buildArgs (length mid) (Suc (length pre)) ?S1 = Inr ?S1"
  proof (rule expandBuildArgs_loop_skip, intro allI impI)
    fix k assume a: "Suc (length pre) \<le> k \<and> k < Suc (length pre) + length mid"
    then obtain m where k: "k = length pre + Suc m" and m: "m < length mid"
      by (metis add_Suc_right add_Suc less_iff_Suc_add le_iff_add nat_add_left_cancel_less)
    have "?S1 ! k = ?mid' ! m"
      using k m by (simp add: nth_append)
    with m mid show "Value (?S1 ! k) \<noteq> command_Arg" by simp
  qed
  have n2: "?S1 ! ?j = r"
    by (simp add: nth_append)
  have t2: "take (Suc ?j) ?S1 = pre @ d # ?mid' @ [r]"
    by simp
  have d2: "drop (Suc ?j) ?S1 = post"
    by simp
  have s2: "expandBuildArgsAt w buildArgs ?j ?S1 = Inr ?S2"
    using replaceFrom_all [OF pp, of w val2] r
    unfolding expandBuildArgsAt_def n2 t2 d2 Let_def
    by simp
  have l2: "expandBuildArgs_loop w buildArgs (length post) (Suc ?j) ?S2 = Inr ?S2"
  proof (rule expandBuildArgs_loop_skip, intro allI impI)
    fix k assume a: "Suc ?j \<le> k \<and> k < Suc ?j + length post"
    then obtain m where k: "k = ?j + Suc m" and m: "m < length post"
      by (metis add_Suc_right add_Suc less_iff_Suc_add le_iff_add nat_add_left_cancel_less)
    have "?S2 ! k = ?post' ! m"
      using k m by (simp add: nth_append)
    with m post show "Value (?S2 ! k) \<noteq> command_Arg" by simp
  qed
  have len: "length ?S0 = length pre + Suc (length mid + Suc (length post))"
    by simp
  have "expandBuildArgs_loop w buildArgs (length pre + Suc (length mid + Suc (length post))) 0 ?S0 =
        expandBuildArgs_loop w buildArgs (Suc (length mid + Suc (length post))) (length pre) ?S0"
    using expandBuildArgs_loop_add
      [of w buildArgs "length pre" "Suc (length mid + Suc (length post))" 0 ?S0]
    by (simp only: l0 sum.case add_0)
  also have "\<dots> =
        expandBuildArgs_loop w buildArgs (length mid + Suc (length post)) (Suc (length pre)) ?S1"
    by (simp only: expandBuildArgs_loop.simps s1 sum.case)
  also have "\<dots> =
        expandBuildArgs_loop w buildArgs (Suc (length post)) (Suc (length pre) + length mid) ?S1"
    using expandBuildArgs_loop_add
      [of w buildArgs "length mid" "Suc (length post)" "Suc (length pre)" ?S1]
    by (simp only: l1 sum.case)
  also have "Suc (length pre) + length mid = ?j"
    by simp
  also have "expandBuildArgs_loop w buildArgs (Suc (length post)) ?j ?S1 =
        expandBuildArgs_loop w buildArgs (length post) (Suc ?j) ?S2"
    by (simp only: expandBuildArgs_loop.simps s2 sum.case)
  also note l2
  finally show ?thesis
    unfolding expandBuildArgs_def len .
qed


subsection \<open>An example with two declarations of one name\<close>

lemma demo_arg_split: "strings_Split ''foo=1'' (CHR ''='') = ''foo'' # [''1'']"
  by code_simp

lemma demo_arg_value: "buildArgValue demo no_buildArgs ''foo'' (''foo'' # [''1'']) = Inr ''1''"
  by (simp add: buildArgValue_def no_buildArgs_def)

lemma demo_arg_between:
  "\<forall>n\<in>set [\<lparr>Value = ''copy'', Next = [''$foo'', ''/a''], Flags = []\<rparr>].
     redefinesArg ''foo'' n = Inr False"
  by (simp add: redefinesArg_def command_Arg_def)

lemma demo_arg_redeclared:
  "redefinesArg ''foo'' \<lparr>Value = ''arg'', Next = [''foo=2''], Flags = []\<rparr> = Inr True"
  by code_simp

lemma demo_arg_expanded:
  "map (expandNode demo ''foo'' ''1'') [\<lparr>Value = ''copy'', Next = [''$foo'', ''/a''], Flags = []\<rparr>] =
     [\<lparr>Value = ''copy'', Next = [''1'', ''/a''], Flags = []\<rparr>]"
  by code_simp

lemma demo_arg_all:
  "expandBuildArgs demo no_buildArgs
     [\<lparr>Value = ''from'', Next = [''alpine''], Flags = []\<rparr>,
      \<lparr>Value = ''arg'', Next = [''foo=1''], Flags = []\<rparr>,
      \<lparr>Value = ''copy'', Next = [''$foo'', ''/a''], Flags = []\<rparr>,
      \<lparr>Value = ''arg'', Next = [''foo=2''], Flags = []\<rparr>,
      \<lparr>Value = ''copy'', Next = [''$foo'', ''/b''], Flags = []\<rparr>] =
   Inr [\<lparr>Value = ''from'', Next = [''alpine''], Flags = []\<rparr>,
        \<lparr>Value = ''arg'', Next = [''foo=1''], Flags = []\<rparr>,
        \<lparr>Value = ''copy'', Next = [''1'', ''/a''], Flags = []\<rparr>,
        \<lparr>Value = ''arg'', Next = [''foo=2''], Flags = []\<rparr>,
        \<lparr>Value = ''copy'', Next = [''2'', ''/b''], Flags = []\<rparr>]"
  by code_simp

text \<open>
  The instructions \<^verbatim>\<open>FROM alpine\<close>, \<^verbatim>\<open>ARG foo=1\<close>, \<^verbatim>\<open>COPY $foo /a\<close>,
  \<^verbatim>\<open>ARG foo=2\<close>, \<^verbatim>\<open>COPY $foo /b\<close>: the iteration at the first declaration replaces in
  the first copy only, and the result of the whole loop holds \<open>1\<close> in the first copy and \<open>2\<close>
  in the second.
\<close>

theorem expandBuildArgs_scoped_witness:
  "redefinesArg ''foo'' \<lparr>Value = ''arg'', Next = [''foo=2''], Flags = []\<rparr> = Inr True \<and>
   expandBuildArgsAt demo no_buildArgs 1
     [\<lparr>Value = ''from'', Next = [''alpine''], Flags = []\<rparr>,
      \<lparr>Value = ''arg'', Next = [''foo=1''], Flags = []\<rparr>,
      \<lparr>Value = ''copy'', Next = [''$foo'', ''/a''], Flags = []\<rparr>,
      \<lparr>Value = ''arg'', Next = [''foo=2''], Flags = []\<rparr>,
      \<lparr>Value = ''copy'', Next = [''$foo'', ''/b''], Flags = []\<rparr>] =
   Inr [\<lparr>Value = ''from'', Next = [''alpine''], Flags = []\<rparr>,
        \<lparr>Value = ''arg'', Next = [''foo=1''], Flags = []\<rparr>,
        \<lparr>Value = ''copy'', Next = [''1'', ''/a''], Flags = []\<rparr>,
        \<lparr>Value = ''arg'', Next = [''foo=2''], Flags = []\<rparr>,
        \<lparr>Value = ''copy'', Next = [''$foo'', ''/b''], Flags = []\<rparr>] \<and>
   expandBuildArgs demo no_buildArgs
     [\<lparr>Value = ''from'', Next = [''alpine''], Flags = []\<rparr>,
      \<lparr>Value = ''arg'', Next = [''foo=1''], Flags = []\<rparr>,
      \<lparr>Value = ''copy'', Next = [''$foo'', ''/a''], Flags = []\<rparr>,
      \<lparr>Value = ''arg'', Next = [''foo=2''], Flags = []\<rparr>,
      \<lparr>Value = ''copy'', Next = [''$foo'', ''/b''], Flags = []\<rparr>] =
   Inr [\<lparr>Value = ''from'', Next = [''alpine''], Flags = []\<rparr>,
        \<lparr>Value = ''arg'', Next = [''foo=1''], Flags = []\<rparr>,
        \<lparr>Value = ''copy'', Next = [''1'', ''/a''], Flags = []\<rparr>,
        \<lparr>Value = ''arg'', Next = [''foo=2''], Flags = []\<rparr>,
        \<lparr>Value = ''copy'', Next = [''2'', ''/b''], Flags = []\<rparr>]"
proof -
  let ?from = "\<lparr>Value = ''from'', Next = [''alpine''], Flags = []\<rparr>"
  let ?d = "\<lparr>Value = ''arg'', Next = [''foo=1''], Flags = []\<rparr>"
  let ?c = "\<lparr>Value = ''copy'', Next = [''$foo'', ''/a''], Flags = []\<rparr>"
  let ?r = "\<lparr>Value = ''arg'', Next = [''foo=2''], Flags = []\<rparr>"
  let ?e = "\<lparr>Value = ''copy'', Next = [''$foo'', ''/b''], Flags = []\<rparr>"
  have v: "Value ?d = command_Arg" by (simp add: command_Arg_def)
  have n: "Next ?d = ''foo=1'' # []" by simp
  from expandBuildArgs_scoped
    [OF v n demo_arg_split demo_arg_value demo_arg_between demo_arg_redeclared,
     of "[?from]" "[?e]"]
  have "expandBuildArgsAt demo no_buildArgs (length [?from]) ([?from] @ ?d # [?c] @ ?r # [?e]) =
          Inr ([?from] @ ?d # map (expandNode demo ''foo'' ''1'') [?c] @ ?r # [?e])"
    by (rule conjunct1)
  then have "expandBuildArgsAt demo no_buildArgs 1 [?from, ?d, ?c, ?r, ?e] =
          Inr [?from, ?d, \<lparr>Value = ''copy'', Next = [''1'', ''/a''], Flags = []\<rparr>, ?r, ?e]"
    unfolding demo_arg_expanded by (simp only: append.simps list.size One_nat_def add_0)
  with demo_arg_redeclared demo_arg_all show ?thesis
    by (simp only: simp_thms)
qed

section \<open>Properties of onbuildInstructions\<close>

subsection \<open>The lookups of the stages\<close>

text \<open>
  The lookups of a list of stages are those of its first part, followed by those of the rest
  with the aliases of the first part added to the stage names.
\<close>

lemma onbuild_loop_lookups_append:
  "snd (onbuild_loop w ir stages (pre @ post)) =
     snd (onbuild_loop w ir stages pre) @
     snd (onbuild_loop w ir (stages \<union> (\<lambda>g. strings_ToLower w (from_as g)) ` set pre) post)"
proof (induction pre arbitrary: stages)
  case Nil
  then show ?case by simp
next
  case (Cons f fs)
  have u: "insert (strings_ToLower w (from_as f)) stages \<union>
             (\<lambda>g. strings_ToLower w (from_as g)) ` set fs =
           stages \<union> (\<lambda>g. strings_ToLower w (from_as g)) ` set (f # fs)"
    by auto
  show ?case
    using Cons.IH [of "insert (strings_ToLower w (from_as f)) stages"]
    unfolding u
    by (simp add: Let_def split: sum.splits)
qed

text \<open>
  Claim C6. The calls of \<^verbatim>\<open>RetrieveImage\<close> for the stages \<open>pre\<close>, \<open>f\<close>, \<open>post\<close> of a
  Dockerfile are the calls for \<open>pre\<close>, then the calls for \<open>f\<close>, then the calls for \<open>post\<close>.
  For \<open>f\<close> there is no call when the lower case of its image is \<^verbatim>\<open>scratch\<close>, and none
  when it is the lower case of the alias of a stage before \<open>f\<close> or of \<open>f\<close> itself; otherwise
  there is one call, with the image of \<open>f\<close> as it is written.
\<close>

theorem onbuild_lookups:
  "snd (onbuild_loop w insecureRegistries {} (pre @ f # post)) =
     snd (onbuild_loop w insecureRegistries {} pre) @
     (if strings_ToLower w (from_image f) = ''scratch'' \<or>
         strings_ToLower w (from_image f) \<in>
           (\<lambda>g. strings_ToLower w (from_as g)) ` set (pre @ [f])
      then [] else [from_image f]) @
     snd (onbuild_loop w insecureRegistries
            ((\<lambda>g. strings_ToLower w (from_as g)) ` set (pre @ [f])) post)"
proof -
  have s: "insert (strings_ToLower w (from_as f))
             ((\<lambda>g. strings_ToLower w (from_as g)) ` set pre) =
           (\<lambda>g. strings_ToLower w (from_as g)) ` set (pre @ [f])"
    by auto
  have "snd (onbuild_loop w insecureRegistries
               ((\<lambda>g. strings_ToLower w (from_as g)) ` set pre) (f # post)) =
        (if strings_ToLower w (from_image f) = ''scratch'' \<or>
            strings_ToLower w (from_image f) \<in>
              (\<lambda>g. strings_ToLower w (from_as g)) ` set (pre @ [f])
         then [] else [from_image f]) @
        snd (onbuild_loop w insecureRegistries
               ((\<lambda>g. strings_ToLower w (from_as g)) ` set (pre @ [f])) post)"
    unfolding s [symmetric]
    by (simp add: Let_def split: sum.splits)
  then show ?thesis
    using onbuild_loop_lookups_append [of w insecureRegistries "{}" pre "f # post"]
    by simp
qed


subsection \<open>An example with four stages\<close>

text \<open>
  The stages of \<^verbatim>\<open>FROM golang:onbuild AS Builder\<close>, \<^verbatim>\<open>FROM SCRATCH\<close>,
  \<^verbatim>\<open>FROM builder\<close> and \<^verbatim>\<open>FROM alpine\<close>.
\<close>

lemma demo_stages:
  "fromInstructions demo
     [\<lparr>Value = ''from'', Next = [''golang:onbuild'', ''AS'', ''Builder''], Flags = []\<rparr>,
      \<lparr>Value = ''from'', Next = [''SCRATCH''], Flags = []\<rparr>,
      \<lparr>Value = ''copy'', Next = [''/go/bin/app'', ''/app''], Flags = [''--from=builder'']\<rparr>,
      \<lparr>Value = ''from'', Next = [''builder''], Flags = []\<rparr>,
      \<lparr>Value = ''from'', Next = [''alpine''], Flags = []\<rparr>] =
   Inr [\<lparr>from_image = ''golang:onbuild'', from_as = ''builder''\<rparr>,
        \<lparr>from_image = ''SCRATCH'', from_as = []\<rparr>,
        \<lparr>from_image = ''builder'', from_as = []\<rparr>,
        \<lparr>from_image = ''alpine'', from_as = []\<rparr>]"
  by code_simp

lemma demo_lookups_before:
  "snd (onbuild_loop demo no_insecureRegistries {}
          [\<lparr>from_image = ''golang:onbuild'', from_as = ''builder''\<rparr>,
           \<lparr>from_image = ''SCRATCH'', from_as = []\<rparr>]) = [''golang:onbuild'']"
  by code_simp

lemma demo_alias_defined:
  "strings_ToLower demo (from_image \<lparr>from_image = ''builder'', from_as = []\<rparr>) \<in>
     (\<lambda>g. strings_ToLower demo (from_as g)) `
       set ([\<lparr>from_image = ''golang:onbuild'', from_as = ''builder''\<rparr>,
             \<lparr>from_image = ''SCRATCH'', from_as = []\<rparr>] @
            [\<lparr>from_image = ''builder'', from_as = []\<rparr>])"
  by code_simp

lemma demo_lookups_after:
  "snd (onbuild_loop demo no_insecureRegistries
          ((\<lambda>g. strings_ToLower demo (from_as g)) `
             set ([\<lparr>from_image = ''golang:onbuild'', from_as = ''builder''\<rparr>,
                   \<lparr>from_image = ''SCRATCH'', from_as = []\<rparr>] @
                  [\<lparr>from_image = ''builder'', from_as = []\<rparr>]))
          [\<lparr>from_image = ''alpine'', from_as = []\<rparr>]) = [''alpine'']"
  by code_simp

text \<open>
  The third stage is built from the alias of the first: the only lookups are those of
  \<^verbatim>\<open>golang:onbuild\<close> and of \<^verbatim>\<open>alpine\<close>.
\<close>

theorem onbuild_lookups_witness:
  "snd (onbuild_loop demo no_insecureRegistries {}
          [\<lparr>from_image = ''golang:onbuild'', from_as = ''builder''\<rparr>,
           \<lparr>from_image = ''SCRATCH'', from_as = []\<rparr>,
           \<lparr>from_image = ''builder'', from_as = []\<rparr>,
           \<lparr>from_image = ''alpine'', from_as = []\<rparr>]) =
   [''golang:onbuild'', ''alpine'']"
proof -
  have "snd (onbuild_loop demo no_insecureRegistries {}
          ([\<lparr>from_image = ''golang:onbuild'', from_as = ''builder''\<rparr>,
            \<lparr>from_image = ''SCRATCH'', from_as = []\<rparr>] @
           \<lparr>from_image = ''builder'', from_as = []\<rparr> #
           [\<lparr>from_image = ''alpine'', from_as = []\<rparr>])) =
        [''golang:onbuild''] @ [] @ [''alpine'']"
    unfolding onbuild_lookups
      [of demo no_insecureRegistries
          "[\<lparr>from_image = ''golang:onbuild'', from_as = ''builder''\<rparr>,
            \<lparr>from_image = ''SCRATCH'', from_as = []\<rparr>]"
          "\<lparr>from_image = ''builder'', from_as = []\<rparr>"
          "[\<lparr>from_image = ''alpine'', from_as = []\<rparr>]"]
    using demo_alias_defined
    by (simp only: demo_lookups_before demo_lookups_after simp_thms if_True)
  then show ?thesis by (simp only: append.simps)
qed

section \<open>Properties of processCopy\<close>

subsection \<open>Remote sources\<close>

text \<open>What the loop adds to the copied sources does not begin with a remote scheme.\<close>

lemma processCopy_loop_elems:
  "processCopy_loop w flags toks envs copied = Inr files \<Longrightarrow>
   set files \<subseteq> set copied \<union>
     {src. \<not> strings_HasPrefix src ''http://'' \<and> \<not> strings_HasPrefix src ''https://''}"
proof (induction w flags toks envs copied rule: processCopy_loop.induct)
  case (1 w flags envs copied)
  then show ?case by simp
next
  case (2 w flags t envs copied)
  then show ?case by auto
next
  case (3 w flags t t' ts envs copied)
  show ?case
  proof (cases "strings_HasPrefix t' ''#''")
    case True
    with "3.prems" show ?thesis by auto
  next
    case False
    with "3.prems" obtain src where s: "processShellWord w t envs = Inr src"
      by (cases "processShellWord w t envs") simp_all
    show ?thesis
    proof (cases "hasMultiStageFlag flags")
      case True
      with "3.prems" False s have "files = []" by simp
      then show ?thesis by simp
    next
      case nf: False
      show ?thesis
      proof (cases "\<not> strings_HasPrefix src ''http://'' \<and> \<not> strings_HasPrefix src ''https://''")
        case True
        with "3.prems" False s nf
        have "processCopy_loop w [] (t' # ts) envs (copied @ [src]) = Inr files" by simp
        from "3.IH"(1) [OF False s nf True this] True show ?thesis by auto
      next
        case r: False
        with "3.prems" False s nf
        have "processCopy_loop w [] (t' # ts) envs copied = Inr files" by auto
        from "3.IH"(2) [OF False s nf r this] show ?thesis .
      qed
    qed
  qed
qed


text \<open>
  Claim C8. When the loop of \<^verbatim>\<open>processCopy\<close> processes a token \<open>t\<close> whose expansion
  \<open>src\<close> begins with \<^verbatim>\<open>http://\<close> or \<^verbatim>\<open>https://\<close>, it goes on with the tokens after
  \<open>t\<close> and the sources it has collected so far: the token adds no source and no error (an
  instruction with the flag of another stage returns no source at this point). And no
  source that \<^verbatim>\<open>processCopy\<close> returns begins with \<^verbatim>\<open>http://\<close> or \<^verbatim>\<open>https://\<close>.
\<close>

theorem processCopy_remote_source:
  "(processShellWord w t envs = Inr src \<and>
    (strings_HasPrefix src ''http://'' \<or> strings_HasPrefix src ''https://'') \<and>
    \<not> strings_HasPrefix t' ''#'' \<longrightarrow>
    processCopy_loop w flags (t # t' # ts) envs copied =
      (if hasMultiStageFlag flags then Inr []
       else processCopy_loop w [] (t' # ts) envs copied)) \<and>
   (processCopy w val envs = Inr files \<longrightarrow>
    (\<forall>f\<in>set files. \<not> strings_HasPrefix f ''http://'' \<and> \<not> strings_HasPrefix f ''https://''))"
proof (intro conjI impI)
  assume a: "processShellWord w t envs = Inr src \<and>
    (strings_HasPrefix src ''http://'' \<or> strings_HasPrefix src ''https://'') \<and>
    \<not> strings_HasPrefix t' ''#''"
  then have s: "processShellWord w t envs = Inr src"
    and r: "strings_HasPrefix src ''http://'' \<or> strings_HasPrefix src ''https://''"
    and c: "\<not> strings_HasPrefix t' ''#''"
    by simp_all
  from r show "processCopy_loop w flags (t # t' # ts) envs copied =
      (if hasMultiStageFlag flags then Inr []
       else processCopy_loop w [] (t' # ts) envs copied)"
  proof
    assume "strings_HasPrefix src ''http://''"
    with s c show ?thesis by simp
  next
    assume "strings_HasPrefix src ''https://''"
    with s c show ?thesis by simp
  qed
next
  assume "processCopy w val envs = Inr files"
  then have "processCopy_loop w (Flags val) (Next val) envs [] = Inr files"
    by (simp add: processCopy_def)
  from processCopy_loop_elems [OF this]
  show "\<forall>f\<in>set files. \<not> strings_HasPrefix f ''http://'' \<and> \<not> strings_HasPrefix f ''https://''"
    by auto
qed

text \<open>The instruction \<^verbatim>\<open>ADD https://example.com/a.tgz ignored.txt /dst\<close>.\<close>

lemma demo_word_remote:
  "processShellWord demo ''https://example.com/a.tgz'' Map.empty = Inr ''https://example.com/a.tgz''"
  by (simp add: processShellWord_def demo_def demo_processWord_def)

lemma demo_remote_prefix: "strings_HasPrefix ''https://example.com/a.tgz'' ''https://''"
  by (simp add: strings_HasPrefix_def)

lemma demo_no_comment: "\<not> strings_HasPrefix ''ignored.txt'' ''#''"
  by (simp add: strings_HasPrefix_def)

lemma demo_not_remote:
  "\<not> strings_HasPrefix ''ignored.txt'' ''http://'' \<and> \<not> strings_HasPrefix ''ignored.txt'' ''https://''"
  by (simp add: strings_HasPrefix_def)

lemma demo_add_remote:
  "processCopy demo
     \<lparr>Value = ''add'', Next = [''https://example.com/a.tgz'', ''ignored.txt'', ''/dst''],
      Flags = []\<rparr> Map.empty = Inr [''ignored.txt'']"
  by code_simp

lemma demo_add_remote_rest:
  "processCopy_loop demo [] [''ignored.txt'', ''/dst''] Map.empty [] = Inr [''ignored.txt'']"
  by code_simp


theorem processCopy_remote_source_witness:
  "processShellWord demo ''https://example.com/a.tgz'' Map.empty =
     Inr ''https://example.com/a.tgz'' \<and>
   strings_HasPrefix ''https://example.com/a.tgz'' ''https://'' \<and>
   \<not> strings_HasPrefix ''ignored.txt'' ''#'' \<and>
   processCopy_loop demo [] [''https://example.com/a.tgz'', ''ignored.txt'', ''/dst'']
     Map.empty [] = Inr [''ignored.txt''] \<and>
   processCopy demo
     \<lparr>Value = ''add'', Next = [''https://example.com/a.tgz'', ''ignored.txt'', ''/dst''],
      Flags = []\<rparr> Map.empty = Inr [''ignored.txt''] \<and>
   \<not> strings_HasPrefix ''ignored.txt'' ''http://'' \<and>
   \<not> strings_HasPrefix ''ignored.txt'' ''https://''"
proof -
  note t = processCopy_remote_source
    [where w = demo and t = "''https://example.com/a.tgz''" and envs = Map.empty
       and src = "''https://example.com/a.tgz''" and t' = "''ignored.txt''"
       and flags = "[]" and ts = "[''/dst'']" and copied = "[]"
       and val = "\<lparr>Value = ''add'',
                    Next = [''https://example.com/a.tgz'', ''ignored.txt'', ''/dst''],
                    Flags = []\<rparr>"
       and files = "[''ignored.txt'']"]
  from t demo_word_remote demo_remote_prefix demo_no_comment
  have "processCopy_loop demo [] [''https://example.com/a.tgz'', ''ignored.txt'', ''/dst'']
          Map.empty [] =
        (if hasMultiStageFlag [] then Inr []
         else processCopy_loop demo [] [''ignored.txt'', ''/dst''] Map.empty [])"
    by blast
  then have l: "processCopy_loop demo [] [''https://example.com/a.tgz'', ''ignored.txt'', ''/dst'']
          Map.empty [] = Inr [''ignored.txt'']"
    by (simp only: hasMultiStageFlag.simps if_False demo_add_remote_rest)
  from t demo_add_remote
  have "\<forall>f\<in>set [''ignored.txt''].
          \<not> strings_HasPrefix f ''http://'' \<and> \<not> strings_HasPrefix f ''https://''"
    by blast
  then have n: "\<not> strings_HasPrefix ''ignored.txt'' ''http://'' \<and>
                \<not> strings_HasPrefix ''ignored.txt'' ''https://''"
    by simp
  from demo_word_remote demo_remote_prefix demo_no_comment l demo_add_remote n
  show ?thesis by blast
qed

subsection \<open>Sources of another stage\<close>

text \<open>
  Claim C7, as the code has it: a copy or add instruction that has a flag beginning with
  \<^verbatim>\<open>--from=\<close> and a first token that the shell lexer expands without error returns no
  source and no error, whatever its other tokens are, and \<^verbatim>\<open>copiedFiles\<close> goes on with
  the next instruction without a new group. The condition on the first token is needed:
  the first token is expanded before the flags are looked at.
\<close>

theorem processCopy_from_flag:
  assumes "Value val = command_Add \<or> Value val = command_Copy"
    and "hasMultiStageFlag (Flags val)"
    and "Next val = t # ts"
    and "processShellWord w t envs = Inr src"
  shows "processCopy w val envs = Inr [] \<and>
         copiedFiles_loop w (val # ns) envs copied = copiedFiles_loop w ns envs copied"
proof -
  have p: "processCopy w val envs = Inr []"
  proof (cases ts)
    case Nil
    with assms(3) show ?thesis by (simp add: processCopy_def)
  next
    case (Cons t' ts')
    with assms(2,3,4) show ?thesis by (simp add: processCopy_def)
  qed
  from assms(1) p have "copiedFiles_loop w (val # ns) envs copied = copiedFiles_loop w ns envs copied"
    by auto
  with p show ?thesis by simp
qed

text \<open>
  The instructions \<^verbatim>\<open>COPY --from=builder /app/bin /bin\<close> and
  \<^verbatim>\<open>COPY --from=builder ${foo /dst\<close>.
\<close>

lemma demo_from_flag: "hasMultiStageFlag [''--from=builder'']"
  by code_simp

lemma demo_word_plain: "processShellWord demo ''/app/bin'' Map.empty = Inr ''/app/bin''"
  by (simp add: processShellWord_def demo_def demo_processWord_def)

lemma demo_copy_from_bad_word:
  "copiedFiles demo
     [\<lparr>Value = ''copy'', Next = [''${foo'', ''/dst''], Flags = [''--from=builder'']\<rparr>] =
     Inl (Wrap (ErrOther ''missing : in substitution'') ''processing word'')"
  by code_simp


theorem processCopy_from_flag_witness:
  "hasMultiStageFlag [''--from=builder''] \<and>
   processShellWord demo ''/app/bin'' Map.empty = Inr ''/app/bin'' \<and>
   processCopy demo
     \<lparr>Value = ''copy'', Next = [''/app/bin'', ''/bin''], Flags = [''--from=builder'']\<rparr>
     Map.empty = Inr [] \<and>
   copiedFiles_loop demo
     [\<lparr>Value = ''copy'', Next = [''/app/bin'', ''/bin''], Flags = [''--from=builder'']\<rparr>]
     Map.empty [] = Inr []"
proof -
  let ?c = "\<lparr>Value = ''copy'', Next = [''/app/bin'', ''/bin''], Flags = [''--from=builder'']\<rparr>"
  have v: "Value ?c = command_Add \<or> Value ?c = command_Copy"
    by (simp add: command_Copy_def)
  have f: "hasMultiStageFlag (Flags ?c)"
    using demo_from_flag by simp
  have n: "Next ?c = ''/app/bin'' # [''/bin'']"
    by simp
  have r: "copiedFiles_loop demo [] Map.empty [] = Inr []"
    by simp
  from processCopy_from_flag [OF v f n demo_word_plain, of "[]" "[]"]
  have "processCopy demo ?c Map.empty = Inr [] \<and>
        copiedFiles_loop demo [?c] Map.empty [] = copiedFiles_loop demo [] Map.empty []" .
  with r demo_from_flag demo_word_plain show ?thesis
    by (simp only: simp_thms)
qed

text \<open>
  Without the condition the claim fails: the first token of
  \<^verbatim>\<open>COPY --from=builder ${foo /dst\<close> is not a word of the shell, and the extraction of the
  copied files fails with the error of the lexer.
\<close>

theorem processCopy_from_flag_counterexample:
  "hasMultiStageFlag [''--from=builder''] \<and>
   copiedFiles demo
     [\<lparr>Value = ''copy'', Next = [''${foo'', ''/dst''], Flags = [''--from=builder'']\<rparr>] =
     Inl (Wrap (ErrOther ''missing : in substitution'') ''processing word'')"
  using demo_from_flag demo_copy_from_bad_word by (simp only: simp_thms)

section \<open>A lookup that fails\<close>

subsection \<open>The resolution does not tell a failed lookup from an image without triggers\<close>

lemma lenient_fields:
  "strings_ToLower (lookupFailuresAsNoTriggers w) = strings_ToLower w"
  "os_Getwd (lookupFailuresAsNoTriggers w) = os_Getwd w"
  "os_Stat (lookupFailuresAsNoTriggers w) = os_Stat w"
  "os_Open (lookupFailuresAsNoTriggers w) = os_Open w"
  "parser_Parse (lookupFailuresAsNoTriggers w) = parser_Parse w"
  "dockerignore_ReadAll (lookupFailuresAsNoTriggers w) = dockerignore_ReadAll w"
  "fileutils_NewPatternMatcher (lookupFailuresAsNoTriggers w) = fileutils_NewPatternMatcher w"
  "filepath_Glob (lookupFailuresAsNoTriggers w) = filepath_Glob w"
  "filepath_Rel (lookupFailuresAsNoTriggers w) = filepath_Rel w"
  "godirwalk_Tree (lookupFailuresAsNoTriggers w) = godirwalk_Tree w"
  "shell_ProcessWord (lookupFailuresAsNoTriggers w) = shell_ProcessWord w"
  "util_ParseEnvTemplate (lookupFailuresAsNoTriggers w) = util_ParseEnvTemplate w"
  "util_ExecuteEnvTemplate (lookupFailuresAsNoTriggers w) = util_ExecuteEnvTemplate w"
  "util_Expand (lookupFailuresAsNoTriggers w) = util_Expand w"
  by (simp_all add: lookupFailuresAsNoTriggers_def)

lemma lenient_RetrieveImage:
  "RetrieveImage (lookupFailuresAsNoTriggers w) img ir =
     (case RetrieveImage w img ir of Inl e \<Rightarrow> Inr [] | Inr onBuild \<Rightarrow> Inr onBuild)"
  by (simp add: lookupFailuresAsNoTriggers_def)

lemma lenient_replaceFrom:
  "replaceFrom (lookupFailuresAsNoTriggers w) key val ns = replaceFrom w key val ns"
  by (induction ns)
     (simp_all add: expandNode_def lenient_fields cong: sum.case_cong bool.case_cong)

lemma lenient_expandBuildArgsAt:
  "expandBuildArgsAt (lookupFailuresAsNoTriggers w) buildArgs i nodes =
     expandBuildArgsAt w buildArgs i nodes"
  by (simp add: expandBuildArgsAt_def buildArgValue_def evaluateBuildArgsValue_def
        lenient_fields lenient_replaceFrom
        cong: sum.case_cong list.case_cong option.case_cong if_cong)

lemma lenient_expandBuildArgs_loop:
  "expandBuildArgs_loop (lookupFailuresAsNoTriggers w) buildArgs n i nodes =
     expandBuildArgs_loop w buildArgs n i nodes"
  by (induction n arbitrary: i nodes)
     (simp_all add: lenient_expandBuildArgsAt cong: sum.case_cong)

lemma lenient_fromInstructions:
  "fromInstructions (lookupFailuresAsNoTriggers w) ns = fromInstructions w ns"
  by (induction ns) (simp_all add: fromInstruction_def lenient_fields cong: sum.case_cong list.case_cong)

lemma lenient_onbuild_loop:
  "fst (onbuild_loop (lookupFailuresAsNoTriggers w) ir stages fs) =
     fst (onbuild_loop w ir stages fs)"
  by (induction fs arbitrary: stages)
     (simp_all add: Let_def lenient_RetrieveImage lenient_fields split: sum.splits)

lemma lenient_processCopy_loop:
  "processCopy_loop (lookupFailuresAsNoTriggers w) flags toks envs copied =
     processCopy_loop w flags toks envs copied"
  by (induction w flags toks envs copied rule: processCopy_loop.induct)
     (simp_all add: processShellWord_def lenient_fields split: sum.splits)

lemma lenient_copiedFiles_loop:
  "copiedFiles_loop (lookupFailuresAsNoTriggers w) ns envs copied =
     copiedFiles_loop w ns envs copied"
  by (induction ns arbitrary: envs copied)
     (simp_all add: processCopy_def lenient_processCopy_loop cong: sum.case_cong if_cong)

lemma lenient_addRelative:
  "addRelative (lookupFailuresAsNoTriggers w) workspace fs ep = addRelative w workspace fs ep"
  by (induction fs arbitrary: ep) (simp_all add: lenient_fields cong: sum.case_cong)

lemma lenient_expandFiles:
  "expandFiles (lookupFailuresAsNoTriggers w) workspace ps ep m = expandFiles w workspace ps ep m"
  by (induction ps arbitrary: ep m)
     (simp_all add: Let_def lenient_fields lenient_addRelative cong: sum.case_cong if_cong)

lemma lenient_expandPaths_loop:
  "expandPaths_loop (lookupFailuresAsNoTriggers w) workspace gs ep =
     expandPaths_loop w workspace gs ep"
  by (induction gs arbitrary: ep)
     (simp_all add: lenient_expandFiles cong: sum.case_cong prod.case_cong if_cong)

lemma lenient_onbuildInstructions:
  "onbuildInstructions (lookupFailuresAsNoTriggers w) nodes ir = onbuildInstructions w nodes ir"
  by (simp add: onbuildInstructions_def lenient_fields lenient_fromInstructions
        lenient_onbuild_loop cong: sum.case_cong)

lemma lenient_readDockerfile:
  "readDockerfile (lookupFailuresAsNoTriggers w) workspace p buildArgs ir =
     readDockerfile w workspace p buildArgs ir"
  by (simp add: readDockerfile_def expandBuildArgs_def copiedFiles_def expandPaths_def
        lenient_fields lenient_expandBuildArgs_loop lenient_onbuildInstructions
        lenient_copiedFiles_loop lenient_expandPaths_loop cong: sum.case_cong)

lemma lenient_walkCallback:
  "walkCallback (lookupFailuresAsNoTriggers w) = walkCallback w"
  by (intro ext) (simp add: walkCallback_def lenient_fields)

lemma lenient_walk:
  "walk (lookupFailuresAsNoTriggers w) workspace absDep pExclude n files =
     walk w workspace absDep pExclude n files"
  "walkChildren (lookupFailuresAsNoTriggers w) workspace absDep pExclude ns files =
     walkChildren w workspace absDep pExclude ns files"
  by (induction w workspace absDep pExclude n files and w workspace absDep pExclude ns files
      rule: walk_walkChildren.induct)
     (simp_all add: lenient_walkCallback cong: sum.case_cong prod.case_cong if_cong)

lemma lenient_WalkWorkspace_loop:
  "WalkWorkspace_loop (lookupFailuresAsNoTriggers w) workspace pExclude deps files =
     WalkWorkspace_loop w workspace pExclude deps files"
  by (induction deps arbitrary: files)
     (simp_all add: Let_def lenient_fields lenient_walk
        cong: sum.case_cong fmode.case_cong if_cong)

lemma lenient_GetDependencies:
  "GetDependencies (lookupFailuresAsNoTriggers w) workspace dockerfilePath buildArgs ir =
     GetDependencies w workspace dockerfilePath buildArgs ir"
  by (simp add: GetDependencies_def NormalizeDockerfilePath_def filepath_Abs_def
        readExcludes_def WalkWorkspace_def lenient_fields lenient_readDockerfile
        lenient_WalkWorkspace_loop cong: sum.case_cong if_cong)


text \<open>
  Claim C9. A stage whose lookup fails adds no trigger: the triggers of the stages from it
  on are the triggers of the stages after it, with its alias among the stage names. And the
  failure is not an error of the resolution: \<^verbatim>\<open>onbuildInstructions\<close> and
  \<^verbatim>\<open>GetDependencies\<close> return what they return in the world in which every failing lookup
  finds an image without triggers, so the resolution succeeds whenever it succeeds there.
\<close>

theorem lookup_failure_not_fatal:
  "(RetrieveImage w (from_image f) insecureRegistries = Inl e \<longrightarrow>
      fst (onbuild_loop w insecureRegistries stages (f # fs)) =
      fst (onbuild_loop w insecureRegistries
             (insert (strings_ToLower w (from_as f)) stages) fs)) \<and>
   onbuildInstructions w nodes insecureRegistries =
     onbuildInstructions (lookupFailuresAsNoTriggers w) nodes insecureRegistries \<and>
   GetDependencies w workspace dockerfilePath buildArgs insecureRegistries =
     GetDependencies (lookupFailuresAsNoTriggers w) workspace dockerfilePath buildArgs
       insecureRegistries"
proof (intro conjI impI)
  assume "RetrieveImage w (from_image f) insecureRegistries = Inl e"
  then show "fst (onbuild_loop w insecureRegistries stages (f # fs)) =
             fst (onbuild_loop w insecureRegistries
                    (insert (strings_ToLower w (from_as f)) stages) fs)"
    by (simp add: Let_def)
next
  show "onbuildInstructions w nodes insecureRegistries =
        onbuildInstructions (lookupFailuresAsNoTriggers w) nodes insecureRegistries"
    by (rule lenient_onbuildInstructions [symmetric])
next
  show "GetDependencies w workspace dockerfilePath buildArgs insecureRegistries =
        GetDependencies (lookupFailuresAsNoTriggers w) workspace dockerfilePath buildArgs
          insecureRegistries"
    by (rule lenient_GetDependencies [symmetric])
qed

text \<open>
  In the example workspace the image \<^verbatim>\<open>private/base\<close> is not found, and the triggers of the
  stage after it are collected; without a registry the lookup of \<^verbatim>\<open>alpine\<close> fails, and the
  dependencies of the Dockerfile are resolved as before.
\<close>

lemma demo_lookup_fails:
  "RetrieveImage demo (from_image \<lparr>from_image = ''private/base'', from_as = []\<rparr>)
     no_insecureRegistries = Inl (ErrOther ''no such image'')"
  by code_simp

lemma demo_triggers_after_failure:
  "fst (onbuild_loop demo no_insecureRegistries
          (insert (strings_ToLower demo (from_as \<lparr>from_image = ''private/base'', from_as = []\<rparr>)) {})
          [\<lparr>from_image = ''golang:onbuild'', from_as = []\<rparr>]) = [''COPY . /go/src/app'']"
  by code_simp

lemma demo_offline_lookup_fails:
  "RetrieveImage demo_offline ''alpine'' no_insecureRegistries =
     Inl (ErrOther ''registry unreachable'')"
  by code_simp

lemma demo_offline_lenient_deps:
  "GetDependencies (lookupFailuresAsNoTriggers demo_offline) ''/ws'' ''Dockerfile'' no_buildArgs
     no_insecureRegistries = Inr [''Dockerfile'', ''files/included.txt'']"
  by code_simp

theorem lookup_failure_not_fatal_witness:
  "RetrieveImage demo ''private/base'' no_insecureRegistries = Inl (ErrOther ''no such image'') \<and>
   fst (onbuild_loop demo no_insecureRegistries {}
          [\<lparr>from_image = ''private/base'', from_as = []\<rparr>,
           \<lparr>from_image = ''golang:onbuild'', from_as = []\<rparr>]) = [''COPY . /go/src/app''] \<and>
   RetrieveImage demo_offline ''alpine'' no_insecureRegistries =
     Inl (ErrOther ''registry unreachable'') \<and>
   GetDependencies demo_offline ''/ws'' ''Dockerfile'' no_buildArgs no_insecureRegistries =
     Inr [''Dockerfile'', ''files/included.txt'']"
proof -
  from lookup_failure_not_fatal
    [where w = demo and f = "\<lparr>from_image = ''private/base'', from_as = []\<rparr>"
       and insecureRegistries = no_insecureRegistries
       and e = "ErrOther ''no such image''" and stages = "{}"
       and fs = "[\<lparr>from_image = ''golang:onbuild'', from_as = []\<rparr>]"]
    demo_lookup_fails
  have "fst (onbuild_loop demo no_insecureRegistries {}
               [\<lparr>from_image = ''private/base'', from_as = []\<rparr>,
                \<lparr>from_image = ''golang:onbuild'', from_as = []\<rparr>]) =
        fst (onbuild_loop demo no_insecureRegistries
               (insert (strings_ToLower demo
                  (from_as \<lparr>from_image = ''private/base'', from_as = []\<rparr>)) {})
               [\<lparr>from_image = ''golang:onbuild'', from_as = []\<rparr>])"
    by blast
  then have a: "fst (onbuild_loop demo no_insecureRegistries {}
               [\<lparr>from_image = ''private/base'', from_as = []\<rparr>,
                \<lparr>from_image = ''golang:onbuild'', from_as = []\<rparr>]) = [''COPY . /go/src/app'']"
    by (simp only: demo_triggers_after_failure)
  from lookup_failure_not_fatal
    [where w = demo_offline and workspace = "''/ws''" and dockerfilePath = "''Dockerfile''"
       and buildArgs = no_buildArgs and insecureRegistries = no_insecureRegistries]
  have "GetDependencies demo_offline ''/ws'' ''Dockerfile'' no_buildArgs no_insecureRegistries =
        GetDependencies (lookupFailuresAsNoTriggers demo_offline) ''/ws'' ''Dockerfile''
          no_buildArgs no_insecureRegistries"
    by blast
  then have b: "GetDependencies demo_offline ''/ws'' ''Dockerfile'' no_buildArgs
                  no_insecureRegistries = Inr [''Dockerfile'', ''files/included.txt'']"
    by (simp only: demo_offline_lenient_deps)
  have c: "RetrieveImage demo ''private/base'' no_insecureRegistries =
             Inl (ErrOther ''no such image'')"
    using demo_lookup_fails by simp
  from c a demo_offline_lookup_fails b show ?thesis
    by (simp only: simp_thms)
qed

end
